theory Spec2Isabelle
  imports Main "HOL-Library.Word" "HOL-Library.Finite_Map" "HOL-Library.Signed_Division"
begin

section \<open>Load-test validation: a model of \<open>load_tests/validation/validate.go\<close>\<close>

text \<open>
  The program checks how many of the records fed into a log pipeline arrived at a
  destination (an S3 bucket or a CloudWatch log stream). The theory follows the source
  function by function: \<open>main\<close>, \<open>validate_s3\<close>, \<open>getS3Object\<close>,
  \<open>validate_cloudwatch\<close> and \<open>get_results\<close>.
\<close>

subsection \<open>Go's \<open>int\<close>\<close>

text \<open>
  Go's \<open>int\<close> is a 64-bit two's complement integer on the platforms this tool is built
  for: \<open>+\<close>, \<open>-\<close> and \<open>*\<close> wrap, \<open>/\<close> truncates toward zero and panics on a zero
  divisor (the caller checks the divisor before \<open>go_div\<close>), comparison is signed.
\<close>

type_synonym go_int = "64 word"

definition go_div :: "go_int \<Rightarrow> go_int \<Rightarrow> go_int" where
  "go_div a b = word_of_int (sint a sdiv sint b)"

subsection \<open>\<open>strconv.Itoa\<close> and \<open>strconv.Atoi\<close>\<close>

text \<open>
  Both are functions of Go's standard library. \<open>Itoa\<close> is the decimal representation
  of a signed integer: a minus sign for a negative value, then the digits without leading
  zeros.
\<close>

definition digit_char :: "nat \<Rightarrow> char" where
  "digit_char d = ''0123456789'' ! d"

fun decimal :: "nat \<Rightarrow> string" where
  "decimal n = (if n < 10 then [digit_char n] else decimal (n div 10) @ [digit_char (n mod 10)])"

declare decimal.simps [simp del]

definition Itoa :: "go_int \<Rightarrow> string" where
  "Itoa i = (if sint i < 0 then CHR ''-'' # decimal (nat (- sint i)) else decimal (nat (sint i)))"

text \<open>The value of a digit character and of a digit string, used to read \<open>decimal\<close> back.\<close>

definition digit_val :: "char \<Rightarrow> nat" where
  "digit_val c = of_char c - 48"

definition is_digit :: "char \<Rightarrow> bool" where
  "is_digit c = (48 \<le> (of_char c :: nat) \<and> (of_char c :: nat) \<le> 57)"

definition undecimal :: "string \<Rightarrow> nat" where
  "undecimal s = foldl (\<lambda>acc c. 10 * acc + digit_val c) 0 s"

text \<open>
  \<open>Atoi\<close> gives what \<open>ParseInt(s, 10, 0)\<close> gives (its fast path for short strings
  computes the same). \<open>ParseUint\<close> reads the bytes from the left into a 64-bit unsigned
  number: a byte that is not a decimal digit is a syntax error with the value 0, and a
  number that leaves the 64 bits is a range error with the largest value, returned at the
  digit where it happens, whatever follows. \<open>ParseInt\<close> takes off one sign, passes a
  syntax error on with the value 0, and on a range error or a number outside \<open>int\<close>
  gives the nearest bound of \<open>int\<close>.
\<close>

datatype num_error = ErrSyntax | ErrRange

fun ParseUint_loop :: "nat \<Rightarrow> string \<Rightarrow> nat \<times> num_error option" where
  "ParseUint_loop n [] = (n, None)"
| "ParseUint_loop n (c # cs) =
     (if \<not> is_digit c then (0, Some ErrSyntax)
      else if (2 ^ 64 - 1) div 10 + 1 \<le> n then (2 ^ 64 - 1, Some ErrRange)
      else if 2 ^ 64 - 1 < n * 10 + digit_val c then (2 ^ 64 - 1, Some ErrRange)
      else ParseUint_loop (n * 10 + digit_val c) cs)"

definition ParseUint :: "string \<Rightarrow> nat \<times> num_error option" where
  "ParseUint s = (if s = [] then (0, Some ErrSyntax) else ParseUint_loop 0 s)"

definition ParseInt :: "string \<Rightarrow> go_int \<times> num_error option" where
  "ParseInt s =
     (if s = [] then (0, Some ErrSyntax)
      else
        let neg = (hd s = CHR ''-'');
            body = (if hd s = CHR ''+'' \<or> hd s = CHR ''-'' then tl s else s)
        in case ParseUint body of (un, err) \<Rightarrow>
             if err = Some ErrSyntax then (0, err)
             else if \<not> neg \<and> 2 ^ 63 \<le> un then (2 ^ 63 - 1, Some ErrRange)
             else if neg \<and> 2 ^ 63 < un then (- (2 ^ 63), Some ErrRange)
             else (if neg then - word_of_nat un else word_of_nat un, None))"

text \<open>
  \<open>main\<close> keeps the value and discards the error
  (\<open>totalInputRecord, _ := strconv.Atoi(inputRecord)\<close>).
\<close>

definition Atoi :: "string \<Rightarrow> go_int" where
  "Atoi s = fst (ParseInt s)"

subsection \<open>The record universe\<close>

text \<open>
  \<open>inputMap\<close> is a Go \<open>map[string]bool\<close>: a finite map from record identifiers to
  the flag "found at the destination".
\<close>

type_synonym universe = "(string, bool) fmap"

definition idCounterBase :: go_int where
  "idCounterBase = 10000000"

text \<open>
  Lines 63 to 67 of \<open>main\<close>: the loop \<open>for i := 0; i < totalInputRecord; i++\<close> that enters
  \<open>strconv.Itoa(idCounterBase + i)\<close> with the flag \<open>false\<close>. The base is a parameter here;
  \<open>main\<close> passes \<open>idCounterBase\<close>.
\<close>

function build_loop :: "go_int \<Rightarrow> go_int \<Rightarrow> go_int \<Rightarrow> universe \<Rightarrow> universe" where
  "build_loop n base i inputMap =
     (if i <s n then build_loop n base (i + 1) (fmupd (Itoa (base + i)) False inputMap)
      else inputMap)"
  by pat_completeness auto

lemma sint_succ: "i <s (n :: go_int) \<Longrightarrow> sint (i + 1) = sint i + 1"
proof -
  assume "i <s n"
  then have "sint i < sint n" by (simp add: word_sless_alt)
  moreover have "sint n < 2 ^ 63" using sint_lt [of n] by simp
  moreover have "- (2 ^ 63) \<le> sint i" using sint_ge [of i] by simp
  ultimately have "- (2 ^ 63) \<le> sint i + 1 \<and> sint i + 1 < 2 ^ 63" by arith
  then have "signed_take_bit 63 (sint i + 1) = sint i + 1"
    by (simp add: signed_take_bit_int_eq_self)
  then show ?thesis by (simp add: sint_word_add)
qed

termination build_loop
proof (relation "measure (\<lambda>(n, base, i, inputMap). nat (sint n - sint i))")
  show "wf (measure (\<lambda>(n, base, i, inputMap). nat (sint n - sint i)))" by simp
next
  fix n base i :: go_int and inputMap :: universe
  assume "i <s n"
  then show "((n, base, i + 1, fmupd (Itoa (base + i)) False inputMap), (n, base, i, inputMap))
      \<in> measure (\<lambda>(n, base, i, inputMap). nat (sint n - sint i))"
    using sint_succ [of i n] by (simp add: word_sless_alt)
qed

declare build_loop.simps [simp del]

definition build :: "go_int \<Rightarrow> go_int \<Rightarrow> universe" where
  "build totalInputRecord base = build_loop totalInputRecord base 0 fmempty"

subsection \<open>Observing a record\<close>

text \<open>
  Lines 161 to 165 of \<open>validate_s3\<close> and lines 245 to 249 of \<open>validate_cloudwatch\<close>:
  the record counter goes up by one, and the flag of \<open>recordId\<close> is set when
  \<open>recordId\<close> is a key of the map.
\<close>

definition observe :: "string \<Rightarrow> go_int \<times> universe \<Rightarrow> go_int \<times> universe" where
  "observe recordId st =
     (case st of (counter, inputMap) \<Rightarrow>
        (counter + 1,
         if recordId |\<in>| fmdom inputMap then fmupd recordId True inputMap else inputMap))"

subsection \<open>Outcomes and events\<close>

text \<open>
  A run ends normally, or it stops early: \<open>exitErrorf\<close> writes its message to standard
  error and exits with status 1 (\<open>Fatal\<close>, with the format string and its arguments); a
  run-time panic of Go ends the process with status 2 (\<open>Panic\<close>). The services are
  given by the replies they make, so a run can also ask for a reply that is not there:
  it is then still waiting (\<open>Pending\<close>) and has not exited.
\<close>

datatype fault = Fatal string "string list" | Panic string | Pending

fun exit_status :: "fault + 'a \<Rightarrow> nat option" where
  "exit_status (Inr v) = Some 0"
| "exit_status (Inl (Fatal msg args)) = Some 1"
| "exit_status (Inl (Panic msg)) = Some 2"
| "exit_status (Inl Pending) = None"

text \<open>The request parameters, as the source fills them in.\<close>

datatype ListObjectsV2Input = ListObjectsV2Input (Bucket: string) (ContinuationToken: "string option") (Prefix: string)

datatype GetObjectInput = GetObjectInput string string

datatype GetLogEventsInput =
  GetLogEventsInput (LogGroupName: string) (LogStreamName: string) (NextToken: "string option") (StartFromHead: bool)

text \<open>An operand of \<open>fmt.Println\<close>: a string or an \<open>int\<close>.\<close>

datatype operand = S string | I go_int

text \<open>What the program does to the world, in order: calls to the services, sleeps and printed lines.\<close>

datatype event =
    ListObjectsV2 ListObjectsV2Input
  | GetObject GetObjectInput
  | GetLogEvents GetLogEventsInput
  | Sleep nat
  | Println "operand list"

definition Second :: nat where
  "Second = 1000000000"

text \<open>The replies of the services. A pointer that may be \<open>nil\<close> is an option.\<close>

record ListObjectsV2Output =
  Contents :: "string list"
  IsTruncated :: "bool option"
  NextContinuationToken :: "string option"

datatype body = ReadError string | Data string

record GetLogEventsOutput =
  Events :: "string option list"
  NextForwardToken :: "string option"

definition StringValue :: "string option \<Rightarrow> string" where
  "StringValue p = (case p of None \<Rightarrow> [] | Some v \<Rightarrow> v)"

definition BoolValue :: "bool option \<Rightarrow> bool" where
  "BoolValue p = (case p of None \<Rightarrow> False | Some v \<Rightarrow> v)"

subsection \<open>\<open>strings.Split\<close> on one separator character and \<open>strings.Contains\<close>\<close>

fun Split :: "string \<Rightarrow> char \<Rightarrow> string list" where
  "Split [] sep = [[]]"
| "Split (c # cs) sep =
     (if c = sep then [] # Split cs sep
      else (case Split cs sep of [] \<Rightarrow> [[c]] | x # xs \<Rightarrow> (c # x) # xs))"

fun HasPrefix :: "string \<Rightarrow> string \<Rightarrow> bool" where
  "HasPrefix s [] = True"
| "HasPrefix [] (p # ps) = False"
| "HasPrefix (c # cs) (p # ps) = (c = p \<and> HasPrefix cs ps)"

fun Contains :: "string \<Rightarrow> string \<Rightarrow> bool" where
  "Contains [] substr = (substr = [])"
| "Contains (c # cs) substr = (HasPrefix (c # cs) substr \<or> Contains cs substr)"

subsection \<open>\<open>validate_s3\<close>\<close>

text \<open>
  The slice \<open>log[:8]\<close> of lines 160 and 244: Go checks the bound at run time and panics
  when the string has fewer than 8 bytes.
\<close>

definition first8 :: "string \<Rightarrow> fault + string" where
  "first8 log = (if length log < 8 then Inl (Panic ''slice bounds out of range [:8]'') else Inr (take 8 log))"

text \<open>
  Lines 147 to 166: the loop over the lines of one object. \<open>json.Unmarshal\<close> into
  \<open>Message\<close> belongs to Go's library and is a parameter: it gives an error, or the
  \<open>Log\<close> field of the decoded message.
\<close>

fun s3_lines :: "(string \<Rightarrow> string + string) \<Rightarrow> string list \<Rightarrow> go_int \<times> universe \<Rightarrow> fault + go_int \<times> universe" where
  "s3_lines Unmarshal [] st = Inr st"
| "s3_lines Unmarshal (d # ds) st =
     (if d = [] then s3_lines Unmarshal ds st
      else (case Unmarshal d of
          Inl decodeError \<Rightarrow> Inl (Fatal ''[TEST FAILURE] Json Unmarshal Error:'' [decodeError])
        | Inr Log \<Rightarrow>
            (case first8 Log of
               Inl f \<Rightarrow> Inl f
             | Inr recordId \<Rightarrow> s3_lines Unmarshal ds (observe recordId st))))"

definition getS3Object :: "(GetObjectInput \<Rightarrow> string + body) \<Rightarrow> GetObjectInput \<Rightarrow> fault + body" where
  "getS3Object s3Client input =
     (case s3Client input of
        Inl err \<Rightarrow> Inl (Fatal ''[TEST FAILURE] Error occured to get s3 object: %v'' [err])
      | Inr obj \<Rightarrow> Inr obj)"

definition ReadAll :: "body \<Rightarrow> fault + string" where
  "ReadAll obj =
     (case obj of
        ReadError err \<Rightarrow> Inl (Fatal ''[TEST FAILURE] Error to parse GetObject response. %v'' [err])
      | Data dataByte \<Rightarrow> Inr dataByte)"

text \<open>
  Lines 132 to 167: the loop over the objects of one listing. The state is
  \<open>s3ObjectCounter\<close> and the pair of \<open>s3RecordCounter\<close> and \<open>inputMap\<close>.
\<close>

fun s3_contents ::
  "(string \<Rightarrow> string + string) \<Rightarrow> (GetObjectInput \<Rightarrow> string + body) \<Rightarrow> string \<Rightarrow> string list
     \<Rightarrow> go_int \<times> go_int \<times> universe \<Rightarrow> (fault + go_int \<times> go_int \<times> universe) \<times> event list" where
  "s3_contents Unmarshal s3Client bucket [] st = (Inr st, [])"
| "s3_contents Unmarshal s3Client bucket (Key # contents) st =
     (case st of (s3ObjectCounter, rest) \<Rightarrow>
        (case getS3Object s3Client (GetObjectInput bucket Key) of
           Inl f \<Rightarrow> (Inl f, [GetObject (GetObjectInput bucket Key)])
         | Inr obj \<Rightarrow>
             (case ReadAll obj of
                Inl f \<Rightarrow> (Inl f, [GetObject (GetObjectInput bucket Key)])
              | Inr dataByte \<Rightarrow>
                  (case s3_lines Unmarshal (Split dataByte (CHR 0x0A)) rest of
                     Inl f \<Rightarrow> (Inl f, [GetObject (GetObjectInput bucket Key)])
                   | Inr rest' \<Rightarrow>
                       (case s3_contents Unmarshal s3Client bucket contents (s3ObjectCounter + 1, rest') of
                          (res, tr) \<Rightarrow> (res, GetObject (GetObjectInput bucket Key) # tr))))))"

text \<open>
  Lines 120 to 173: the listing loop, over the replies that \<open>ListObjectsV2\<close> makes to
  the successive calls. Any error of the listing is fatal.
\<close>

fun s3_loop ::
  "(string \<Rightarrow> string + string) \<Rightarrow> (GetObjectInput \<Rightarrow> string + body) \<Rightarrow> string \<Rightarrow> string
     \<Rightarrow> string option \<Rightarrow> (string + ListObjectsV2Output) list
     \<Rightarrow> go_int \<times> go_int \<times> universe \<Rightarrow> (fault + go_int \<times> go_int \<times> universe) \<times> event list" where
  "s3_loop Unmarshal s3Client bucket prefix continuationToken [] st =
     (Inl Pending, [ListObjectsV2 (ListObjectsV2Input bucket continuationToken prefix)])"
| "s3_loop Unmarshal s3Client bucket prefix continuationToken (reply # replies) st =
     (let input = ListObjectsV2Input bucket continuationToken prefix in
      case reply of
        Inl err \<Rightarrow>
          (Inl (Fatal ''[TEST FAILURE] Error occured to get the objects from bucket: %q., %v'' [bucket, err]),
           [ListObjectsV2 input])
      | Inr response \<Rightarrow>
          (case s3_contents Unmarshal s3Client bucket (Contents response) st of
             (Inl f, tr) \<Rightarrow> (Inl f, ListObjectsV2 input # tr)
           | (Inr st', tr) \<Rightarrow>
               if \<not> BoolValue (IsTruncated response) then (Inr st', ListObjectsV2 input # tr)
               else (case s3_loop Unmarshal s3Client bucket prefix (NextContinuationToken response) replies st' of
                       (res, tr') \<Rightarrow> (res, ListObjectsV2 input # tr @ tr'))))"

definition validate_s3 ::
  "(string \<Rightarrow> string + string) \<Rightarrow> (string + ListObjectsV2Output) list \<Rightarrow> (GetObjectInput \<Rightarrow> string + body)
     \<Rightarrow> string \<Rightarrow> string \<Rightarrow> universe \<Rightarrow> (fault + go_int \<times> universe) \<times> event list" where
  "validate_s3 Unmarshal listing s3Client bucket prefix inputMap =
     (case s3_loop Unmarshal s3Client bucket prefix None listing (0, 0, inputMap) of
        (Inl f, tr) \<Rightarrow> (Inl f, tr)
      | (Inr (s3ObjectCounter, s3RecordCounter, inputMap'), tr) \<Rightarrow>
          (Inr (s3RecordCounter, inputMap'), tr @ [Println [S ''Total object in S3: '', I s3ObjectCounter]]))"

subsection \<open>\<open>validate_cloudwatch\<close>\<close>

text \<open>Lines 240 to 250: the loop over the events of one page. There is no envelope to decode.\<close>

fun cw_events :: "string option list \<Rightarrow> go_int \<times> universe \<Rightarrow> fault + go_int \<times> universe" where
  "cw_events [] st = Inr st"
| "cw_events (Message # events) st =
     (case first8 (StringValue Message) of
        Inl f \<Rightarrow> Inl f
      | Inr recordId \<Rightarrow> cw_events events (observe recordId st))"

text \<open>
  Lines 230 to 238: the loop \<open>for err != nil\<close> after a call of \<open>GetLogEvents\<close>. Its
  arguments are the reply to the call just made and the replies still to come; it returns
  the response with the replies left over.
\<close>

fun cw_retry ::
  "string \<Rightarrow> GetLogEventsInput \<Rightarrow> string + GetLogEventsOutput \<Rightarrow> (string + GetLogEventsOutput) list
     \<Rightarrow> (fault + GetLogEventsOutput \<times> (string + GetLogEventsOutput) list) \<times> event list" where
  "cw_retry logGroup input (Inr response) replies = (Inr (response, replies), [])"
| "cw_retry logGroup input (Inl err) replies =
     (if Contains err ''ThrottlingException: Rate exceeded'' then
        (case replies of
           [] \<Rightarrow> (Inl Pending, [Sleep (1 * Second), GetLogEvents input])
         | reply # replies' \<Rightarrow>
             (case cw_retry logGroup input reply replies' of
                (res, tr) \<Rightarrow> (res, Sleep (1 * Second) # GetLogEvents input # tr)))
      else
        (Inl (Fatal ''[TEST FAILURE] Error occured to get the log events from log group: %q., %v'' [logGroup, err]),
         []))"

lemma cw_retry_length:
  "cw_retry logGroup input reply replies = (Inr (response, replies'), tr) \<Longrightarrow> length replies' \<le> length replies"
proof (induction replies arbitrary: reply tr)
  case Nil
  then show ?case by (cases reply) (auto split: if_splits)
next
  case (Cons r rs)
  show ?case
  proof (cases reply)
    case (Inr resp)
    with Cons.prems show ?thesis by simp
  next
    case (Inl err)
    with Cons.prems obtain tr' where "cw_retry logGroup input r rs = (Inr (response, replies'), tr')"
      by (auto split: if_splits prod.splits)
    then have "length replies' \<le> length rs" by (rule Cons.IH)
    then show ?thesis by simp
  qed
qed

text \<open>Lines 213 to 258: the paging loop, over the replies that \<open>GetLogEvents\<close> makes.\<close>

function cw_loop ::
  "string \<Rightarrow> string \<Rightarrow> string option \<Rightarrow> (string + GetLogEventsOutput) list
     \<Rightarrow> go_int \<times> universe \<Rightarrow> (fault + go_int \<times> universe) \<times> event list" where
  "cw_loop logGroup logStream forwardToken [] st =
     (Inl Pending,
      [GetLogEvents (if forwardToken = None then GetLogEventsInput logGroup logStream None True
                     else GetLogEventsInput logGroup logStream forwardToken True)])"
| "cw_loop logGroup logStream forwardToken (reply # replies) st =
     (let input = (if forwardToken = None then GetLogEventsInput logGroup logStream None True
                   else GetLogEventsInput logGroup logStream forwardToken True) in
      case cw_retry logGroup input reply replies of
        (Inl f, tr) \<Rightarrow> (Inl f, GetLogEvents input # tr)
      | (Inr (response, replies'), tr) \<Rightarrow>
          (case cw_events (Events response) st of
             Inl f \<Rightarrow> (Inl f, GetLogEvents input # tr)
           | Inr st' \<Rightarrow>
               if StringValue (NextForwardToken response) = StringValue forwardToken
               then (Inr st', GetLogEvents input # tr)
               else (case cw_loop logGroup logStream (NextForwardToken response) replies' st' of
                       (res, tr') \<Rightarrow> (res, GetLogEvents input # tr @ tr'))))"
  by pat_completeness auto
termination
proof (relation "measure (\<lambda>(logGroup, logStream, forwardToken, replies, st). length replies)")
  show "wf (measure (\<lambda>(logGroup, logStream, forwardToken, replies, st). length replies))" by simp
next
  fix logGroup logStream :: string and forwardToken :: "string option"
    and reply :: "string + GetLogEventsOutput" and replies :: "(string + GetLogEventsOutput) list"
    and st :: "go_int \<times> universe" and input x tr x1 response replies' st'
  assume "input = (if forwardToken = None then GetLogEventsInput logGroup logStream None True
                   else GetLogEventsInput logGroup logStream forwardToken True)"
    and "(x, tr) = cw_retry logGroup input reply replies"
    and "x = Inr x1" and "(response, replies') = x1"
  then have "cw_retry logGroup input reply replies = (Inr (response, replies'), tr)" by simp
  then have "length replies' \<le> length replies" by (rule cw_retry_length)
  then show "((logGroup, logStream, NextForwardToken response, replies', st'),
              (logGroup, logStream, forwardToken, reply # replies, st))
      \<in> measure (\<lambda>(logGroup, logStream, forwardToken, replies, st). length replies)"
    by simp
qed

definition validate_cloudwatch ::
  "(string + GetLogEventsOutput) list \<Rightarrow> string \<Rightarrow> string \<Rightarrow> universe \<Rightarrow> (fault + go_int \<times> universe) \<times> event list" where
  "validate_cloudwatch cwClient logGroup logStream inputMap = cw_loop logGroup logStream None cwClient (0, inputMap)"

subsection \<open>\<open>get_results\<close>\<close>

text \<open>
  Lines 264 to 270: the loop over the values of \<open>recordMap\<close> counts the flags that
  are set.
\<close>

definition uniqueRecordFound :: "universe \<Rightarrow> go_int" where
  "uniqueRecordFound recordMap =
     word_of_nat (fcard (ffilter (\<lambda>k. fmlookup recordMap k = Some True) (fmdom recordMap)))"

text \<open>The expressions printed by lines 275 and 277.\<close>

definition duplicates :: "go_int \<Rightarrow> go_int \<Rightarrow> go_int" where
  "duplicates totalRecordFound unique = totalRecordFound - unique"

definition lossPercent :: "go_int \<Rightarrow> go_int \<Rightarrow> go_int" where
  "lossPercent totalInputRecord unique = go_div ((totalInputRecord - unique) * 100) totalInputRecord"

text \<open>
  The five lines before the loss are printed before the division is evaluated, so they are
  there when the division by zero panics.
\<close>

definition get_results :: "go_int \<Rightarrow> go_int \<Rightarrow> universe \<Rightarrow> string \<Rightarrow> (fault + unit) \<times> event list" where
  "get_results totalInputRecord totalRecordFound recordMap logDelay =
     (let unique = uniqueRecordFound recordMap;
          head = [Println [S ''Total input record: '', I totalInputRecord],
                  Println [S ''Total record in destination: '', I totalRecordFound],
                  Println [S ''Unique record in destination: '', I unique],
                  Println [S ''Duplicate records: '', I (duplicates totalRecordFound unique)],
                  Println [S ''Log Delay: '', S logDelay]]
      in if totalInputRecord = 0 then (Inl (Panic ''integer divide by zero''), head)
         else (Inr (),
               head @ [Println [S ''Log Loss: '', I (lossPercent totalInputRecord unique), S ''%'']]
                 @ (if totalInputRecord \<noteq> unique
                    then [Println [S ''Number of missing log records: '', I (totalInputRecord - unique)]]
                    else [])))"

subsection \<open>\<open>main\<close>\<close>

definition envAWSRegion :: string where "envAWSRegion = ''AWS_REGION''"
definition envS3Bucket :: string where "envS3Bucket = ''S3_BUCKET_NAME''"
definition envCWLogGroup :: string where "envCWLogGroup = ''CW_LOG_GROUP_NAME''"
definition envLogPrefix :: string where "envLogPrefix = ''LOG_PREFIX''"
definition envDestination :: string where "envDestination = ''DESTINATION''"

text \<open>
  What the process is started in: the environment (\<open>os.Getenv\<close> gives the empty string
  for a variable that is not set), the arguments (\<open>os.Args\<close>, the program's name first),
  the error of \<open>session.NewSession\<close> for a region if it has one, the decoder of
  \<open>json.Unmarshal\<close>, and the replies of the two services.
\<close>

record world =
  Getenv :: "string \<Rightarrow> string"
  Args :: "string list"
  NewSession :: "string \<Rightarrow> string option"
  Unmarshal :: "string \<Rightarrow> string + string"
  s3_listing :: "(string + ListObjectsV2Output) list"
  s3_objects :: "GetObjectInput \<Rightarrow> string + body"
  cw_pages :: "(string + GetLogEventsOutput) list"

text \<open>\<open>getS3Client\<close> and \<open>getCWClient\<close>: the client, or the error of the session.\<close>

definition getS3Client ::
  "world \<Rightarrow> string \<Rightarrow> string + (string + ListObjectsV2Output) list \<times> (GetObjectInput \<Rightarrow> string + body)" where
  "getS3Client w region =
     (case NewSession w region of Some err \<Rightarrow> Inl err | None \<Rightarrow> Inr (s3_listing w, s3_objects w))"

definition getCWClient :: "world \<Rightarrow> string \<Rightarrow> string + (string + GetLogEventsOutput) list" where
  "getCWClient w region =
     (case NewSession w region of Some err \<Rightarrow> Inl err | None \<Rightarrow> Inr (cw_pages w))"

text \<open>Lines 74 to 89: the choice of the destination.\<close>

definition read_destination ::
  "world \<Rightarrow> string \<Rightarrow> string \<Rightarrow> string \<Rightarrow> string \<Rightarrow> string \<Rightarrow> universe \<Rightarrow> (fault + go_int \<times> universe) \<times> event list" where
  "read_destination w destination region bucket logGroup prefix inputMap =
     (if destination = ''s3'' then
        (case getS3Client w region of
           Inl err \<Rightarrow> (Inl (Fatal ''[TEST FAILURE] Unable to create new S3 client: %v'' [err]), [])
         | Inr (listing, s3Client) \<Rightarrow> validate_s3 (Unmarshal w) listing s3Client bucket prefix inputMap)
      else if destination = ''cloudwatch'' then
        (case getCWClient w region of
           Inl err \<Rightarrow> (Inl (Fatal ''[TEST FAILURE] Unable to create new CloudWatch client: %v'' [err]), [])
         | Inr cwClient \<Rightarrow> validate_cloudwatch cwClient logGroup prefix inputMap)
      else (Inr (0, inputMap), []))"

text \<open>
  \<open>main\<close>. Reading \<open>os.Args[1]\<close> or \<open>os.Args[2]\<close> panics when the argument is not
  there. The universe is built after the check of the first argument and before the
  check of the second.
\<close>

definition main :: "world \<Rightarrow> (fault + unit) \<times> event list" where
  "main w =
     (let region = Getenv w envAWSRegion in
      if region = [] then
        (Inl (Fatal ''[TEST FAILURE] AWS Region required. Set the value for environment variable- %s'' [envAWSRegion]), [])
      else let bucket = Getenv w envS3Bucket in
      if bucket = [] then
        (Inl (Fatal ''[TEST FAILURE] Bucket name required. Set the value for environment variable- %s'' [envS3Bucket]), [])
      else let logGroup = Getenv w envCWLogGroup in
      if logGroup = [] then
        (Inl (Fatal ''[TEST FAILURE] Log group name required. Set the value for environment variable- %s'' [envCWLogGroup]), [])
      else let prefix = Getenv w envLogPrefix in
      if prefix = [] then
        (Inl (Fatal ''[TEST FAILURE] Object prefix required. Set the value for environment variable- %s'' [envLogPrefix]), [])
      else let destination = Getenv w envDestination in
      if destination = [] then
        (Inl (Fatal ''[TEST FAILURE] Log destination for validation required. Set the value for environment variable- %s'' [envDestination]), [])
      else if length (Args w) \<le> 1 then (Inl (Panic ''index out of range [1]''), [])
      else let inputRecord = Args w ! 1 in
      if inputRecord = [] then
        (Inl (Fatal ''[TEST FAILURE] Total input record number required. Set the value as the first argument'' []), [])
      else let totalInputRecord = Atoi inputRecord;
               inputMap = build totalInputRecord idCounterBase in
      if length (Args w) \<le> 2 then (Inl (Panic ''index out of range [2]''), [])
      else let logDelay = Args w ! 2 in
      if logDelay = [] then
        (Inl (Fatal ''[TEST FAILURE] Log delay required. Set the value as the second argument'' []), [])
      else
        (case read_destination w destination region bucket logGroup prefix inputMap of
           (Inl f, tr) \<Rightarrow> (Inl f, tr)
         | (Inr (totalRecordFound, inputMap'), tr) \<Rightarrow>
             (case get_results totalInputRecord totalRecordFound inputMap' logDelay of
                (res, tr') \<Rightarrow> (res, tr @ tr'))))"

subsection \<open>The invariant of the universe, and the cursors of a traversal\<close>

text \<open>
  The invariant of the record universe relates the map before and after: the keys are the
  same, and a flag that is set stays set.
\<close>

definition flags_grow :: "universe \<Rightarrow> universe \<Rightarrow> bool" where
  "flags_grow m m' = (fmdom m' = fmdom m \<and> (\<forall>k. fmlookup m k = Some True \<longrightarrow> fmlookup m' k = Some True))"

text \<open>
  The cursors supplied to the successive calls of a traversal that starts with the cursor
  \<open>t\<close> and receives the given pages: \<open>t\<close> itself, then the cursor of each page for
  the call after it.
\<close>

fun cursors :: "string option \<Rightarrow> GetLogEventsOutput list \<Rightarrow> string option list" where
  "cursors t [] = []"
| "cursors t (p # ps) = t # cursors (NextForwardToken p) ps"

fun continuations :: "string option \<Rightarrow> ListObjectsV2Output list \<Rightarrow> string option list" where
  "continuations t [] = []"
| "continuations t (p # ps) = t # continuations (NextContinuationToken p) ps"

text \<open>
  Every page returns a forward cursor whose value differs from the one supplied to its
  call; and: every page but the last does, and the last page returns the cursor supplied.
  The value of a cursor is its \<open>aws.StringValue\<close>, as line 253 compares it.
\<close>

fun cursor_changes :: "string option \<Rightarrow> GetLogEventsOutput list \<Rightarrow> bool" where
  "cursor_changes t [] = True"
| "cursor_changes t (p # ps) =
     (StringValue (NextForwardToken p) \<noteq> StringValue t \<and> cursor_changes (NextForwardToken p) ps)"

fun cursor_repeats_last :: "string option \<Rightarrow> GetLogEventsOutput list \<Rightarrow> bool" where
  "cursor_repeats_last t [] = False"
| "cursor_repeats_last t [p] = (StringValue (NextForwardToken p) = StringValue t)"
| "cursor_repeats_last t (p # q # ps) =
     (StringValue (NextForwardToken p) \<noteq> StringValue t \<and> cursor_repeats_last (NextForwardToken p) (q # ps))"


text \<open>
  An object that can be fetched and read, and whose non-empty lines decode to a payload
  of at least 8 bytes.
\<close>

definition object_ok :: "(string \<Rightarrow> string + string) \<Rightarrow> (GetObjectInput \<Rightarrow> string + body) \<Rightarrow> string \<Rightarrow> string \<Rightarrow> bool" where
  "object_ok decode s3Client bucket Key =
     (case s3Client (GetObjectInput bucket Key) of
        Inr (Data dataByte) \<Rightarrow>
          list_all (\<lambda>d. d = [] \<or> (case decode d of Inl decodeError \<Rightarrow> False | Inr Log \<Rightarrow> 8 \<le> length Log))
            (Split dataByte (CHR 0x0A))
      | Inr (ReadError err) \<Rightarrow> False
      | Inl err \<Rightarrow> False)"

fun is_listing :: "event \<Rightarrow> bool" where
  "is_listing (ListObjectsV2 input) = True"
| "is_listing e = False"

text \<open>The five environment variables are set and not empty.\<close>

definition env_complete :: "world \<Rightarrow> bool" where
  "env_complete w =
     (Getenv w envAWSRegion \<noteq> [] \<and> Getenv w envS3Bucket \<noteq> [] \<and> Getenv w envCWLogGroup \<noteq> []
      \<and> Getenv w envLogPrefix \<noteq> [] \<and> Getenv w envDestination \<noteq> [])"

subsection \<open>An example destination\<close>

text \<open>
  A decoder for lines of the one shape the producer writes, \<open>{"log":"..."}\<close> with no
  escapes; five records, of which one is delivered twice and one is not of the universe,
  as three pages of a log stream and as two objects of a listing in three pages.
\<close>

definition example_Unmarshal :: "string \<Rightarrow> string + string" where
  \<open>example_Unmarshal d =
     (if HasPrefix d ''{"log":"'' \<and> HasPrefix (rev d) ''}"'' then Inr (take (length d - 10) (drop 8 d))
      else Inl ''invalid character'')\<close>

definition example_line :: string where
  \<open>example_line = ''{"log":"10000000_1639151827578_a"}''\<close>

definition example_short_line :: string where
  \<open>example_short_line = ''{"log":"1000"}''\<close>

definition example_responses :: "GetLogEventsOutput list" where
  "example_responses =
     [\<lparr>Events = [Some ''10000000_1639151827578_a'', Some ''10000001_1639151827579_b'',
                  Some ''10000001_1639151827579_b''],
       NextForwardToken = Some ''f/1''\<rparr>,
      \<lparr>Events = [Some ''10000003_1639151827580_c'', Some ''99999999_1639151827581_d''],
       NextForwardToken = Some ''f/2''\<rparr>,
      \<lparr>Events = [], NextForwardToken = Some ''f/2''\<rparr>]"

definition example_pages :: "(string + GetLogEventsOutput) list" where
  "example_pages = map Inr example_responses"

definition example_listings :: "ListObjectsV2Output list" where
  "example_listings =
     [\<lparr>Contents = [''logs/1''], IsTruncated = Some True, NextContinuationToken = Some ''c1''\<rparr>,
      \<lparr>Contents = [''logs/2''], IsTruncated = Some True, NextContinuationToken = Some ''c2''\<rparr>,
      \<lparr>Contents = [], IsTruncated = Some False, NextContinuationToken = None\<rparr>]"

definition example_listing :: "(string + ListObjectsV2Output) list" where
  "example_listing = map Inr example_listings"

definition example_objects :: "GetObjectInput \<Rightarrow> string + body" where
  \<open>example_objects input =
     (case input of GetObjectInput bucket Key \<Rightarrow>
        if Key = ''logs/1'' then
          Inr (Data ''{"log":"10000000_1639151827578_a"}\<newline>{"log":"10000001_1639151827579_b"}\<newline>{"log":"10000001_1639151827579_b"}\<newline>'')
        else if Key = ''logs/2'' then
          Inr (Data ''{"log":"10000003_1639151827580_c"}\<newline>{"log":"99999999_1639151827581_d"}\<newline>'')
        else Inl ''NoSuchKey'')\<close>

definition example_world :: "string \<Rightarrow> string \<Rightarrow> world" where
  "example_world destination inputRecord =
     \<lparr>Getenv = (\<lambda>name. if name = envAWSRegion then ''us-west-2''
                      else if name = envS3Bucket then ''load-test-bucket''
                      else if name = envCWLogGroup then ''load-test-group''
                      else if name = envLogPrefix then ''load-test''
                      else if name = envDestination then destination
                      else []),
      Args = [''validate'', inputRecord, ''1s''],
      NewSession = (\<lambda>region. None),
      Unmarshal = example_Unmarshal,
      s3_listing = example_listing,
      s3_objects = example_objects,
      cw_pages = example_pages\<rparr>"

subsection \<open>Example universes\<close>

text \<open>Three of five records found, and two of two.\<close>

definition found3of5 :: universe where
  "found3of5 = fmupd ''10000004'' False (fmupd ''10000003'' True (fmupd ''10000002'' False
        (fmupd ''10000001'' True (fmupd ''10000000'' True fmempty))))"

definition found2of2 :: universe where
  "found2of2 = fmupd ''10000001'' True (fmupd ''10000000'' True fmempty)"

section \<open>Properties\<close>

subsection \<open>Decimal strings\<close>

lemma digit_val_digit_char: "d < 10 \<Longrightarrow> digit_val (digit_char d) = d"
proof -
  assume "d < 10"
  then have "d \<in> {0, 1, 2, 3, 4, 5, 6, 7, 8, 9}" by auto
  then show ?thesis
    by (auto simp: digit_val_def digit_char_def)
qed

lemma digit_char_not_minus: "d < 10 \<Longrightarrow> digit_char d \<noteq> CHR ''-''"
proof -
  assume "d < 10"
  then have "d \<in> {0, 1, 2, 3, 4, 5, 6, 7, 8, 9}" by auto
  then show ?thesis
    by (auto simp: digit_char_def)
qed

lemma undecimal_snoc: "undecimal (s @ [c]) = 10 * undecimal s + digit_val c"
  by (simp add: undecimal_def)

lemma undecimal_decimal: "undecimal (decimal n) = n"
proof (induction n rule: decimal.induct)
  case (1 n)
  show ?case
  proof (cases "n < 10")
    case True
    then show ?thesis
      by (simp add: decimal.simps [of n] undecimal_def digit_val_digit_char)
  next
    case False
    with 1 have "undecimal (decimal (n div 10)) = n div 10" by simp
    with False show ?thesis
      by (simp add: decimal.simps [of n] undecimal_snoc digit_val_digit_char)
  qed
qed

lemma decimal_inj: "decimal a = decimal b \<Longrightarrow> a = b"
  using undecimal_decimal by metis

lemma decimal_not_Nil: "decimal n \<noteq> []"
  by (subst decimal.simps) simp

lemma hd_decimal_not_minus: "hd (decimal n) \<noteq> CHR ''-''"
proof (induction n rule: decimal.induct)
  case (1 n)
  show ?case
  proof (cases "n < 10")
    case True
    then show ?thesis
      by (simp add: decimal.simps [of n] digit_char_not_minus)
  next
    case False
    with 1 have "hd (decimal (n div 10)) \<noteq> CHR ''-''" by simp
    with False show ?thesis
      by (simp add: decimal.simps [of n] decimal_not_Nil)
  qed
qed

lemma Itoa_inj: "Itoa a = Itoa b \<Longrightarrow> a = b"
proof -
  assume eq: "Itoa a = Itoa b"
  have neg: "sint x < 0 \<Longrightarrow> hd (Itoa x) = CHR ''-''" for x
    by (simp add: Itoa_def)
  have pos: "\<not> sint x < 0 \<Longrightarrow> hd (Itoa x) \<noteq> CHR ''-''" for x
    by (simp add: Itoa_def hd_decimal_not_minus)
  have same: "(sint a < 0) = (sint b < 0)"
    using eq neg pos by metis
  have "sint a = sint b"
  proof (cases "sint a < 0")
    case True
    with same eq have "decimal (nat (- sint a)) = decimal (nat (- sint b))"
      by (simp add: Itoa_def)
    then have "nat (- sint a) = nat (- sint b)" by (rule decimal_inj)
    with True same show ?thesis by simp
  next
    case False
    with same eq have "decimal (nat (sint a)) = decimal (nat (sint b))"
      by (simp add: Itoa_def)
    then have "nat (sint a) = nat (sint b)" by (rule decimal_inj)
    with False same show ?thesis by simp
  qed
  then show ?thesis by (rule signed_word_eqI)
qed

subsection \<open>Arithmetic of \<open>go_int\<close>\<close>

lemma sint_range64: "- (2 ^ 63) \<le> sint (x :: go_int) \<and> sint x < 2 ^ 63"
  using sint_ge [of x] sint_lt [of x] by simp

lemma sint_word_of_nat64: "n < 2 ^ 63 \<Longrightarrow> sint (word_of_nat n :: go_int) = int n"
  by (simp add: signed_of_nat signed_take_bit_int_eq_self)

lemma below_count: "k < nat (sint (n :: go_int)) \<Longrightarrow> k < 2 ^ 63"
proof -
  assume "k < nat (sint n)"
  then have "int k < sint n" by linarith
  also have "sint n < 2 ^ 63" using sint_range64 [of n] by simp
  finally have "int k < int (2 ^ 63)" by simp
  then show ?thesis by (simp only: of_nat_less_iff)
qed

lemma sint_word_of_int64:
  "- (2 ^ 63) \<le> k \<Longrightarrow> k < 2 ^ 63 \<Longrightarrow> sint (word_of_int k :: go_int) = k"
  by (simp add: signed_of_int signed_take_bit_int_eq_self)

lemma sint_minus64:
  "- (2 ^ 63) \<le> sint a - sint b \<Longrightarrow> sint a - sint b < 2 ^ 63 \<Longrightarrow> sint (a - b :: go_int) = sint a - sint b"
  by (simp add: sint_word_diff signed_take_bit_int_eq_self)

lemma sint_times_100:
  "- (2 ^ 63) \<le> sint a * 100 \<Longrightarrow> sint a * 100 < 2 ^ 63 \<Longrightarrow> sint (a * 100 :: go_int) = sint a * 100"
  by (simp add: sint_word_mult signed_take_bit_int_eq_self)

lemma times_100_range:
  fixes x :: int
  assumes "- (2 ^ 63) \<le> x * 100" "x * 100 < 2 ^ 63"
  shows "- (2 ^ 63) \<le> x \<and> x < 2 ^ 63"
proof -
  have pw: "(2 :: int) ^ 63 = 9223372036854775808" by simp
  from assms show ?thesis unfolding pw by linarith
qed

lemma sdiv_pos_bounds:
  fixes p n :: int
  assumes "0 < n"
  shows "- \<bar>p\<bar> \<le> p sdiv n \<and> p sdiv n \<le> \<bar>p\<bar>"
  using sdiv_int_range [of p n] by simp

lemma sdiv_in_range:
  fixes p n :: int
  assumes "0 < n" "- (2 ^ 63) \<le> p" "p < 2 ^ 63"
  shows "- (2 ^ 63) \<le> p sdiv n \<and> p sdiv n < 2 ^ 63"
proof -
  have r: "- \<bar>p\<bar> \<le> p sdiv n" "p sdiv n \<le> \<bar>p\<bar>"
    using sdiv_int_range [of p n] by simp_all
  show ?thesis
  proof (cases "0 \<le> p")
    case True
    with r assms show ?thesis by simp
  next
    case False
    then have e: "p sdiv n = - ((- p) div n)" using assms(1) by (simp add: signed_divide_int_def sgn_if)
    have "0 \<le> (- p) div n" using False assms(1) by (simp add: pos_imp_zdiv_nonneg_iff)
    with e have "p sdiv n \<le> 0" by simp
    with r False assms show ?thesis by simp
  qed
qed


subsection \<open>Building the universe\<close>

lemma build_loop_lookup:
  "fmlookup (build_loop n base i m) k =
     (if k \<in> (\<lambda>j. Itoa (base + j)) ` {j. i \<le>s j \<and> j <s n} then Some False else fmlookup m k)"
proof (induction n base i m rule: build_loop.induct)
  case (1 n base i m)
  show ?case
  proof (cases "i <s n")
    case True
    have "{j. i \<le>s j \<and> j <s n} = insert i {j. i + 1 \<le>s j \<and> j <s n}"
    proof (intro equalityI subsetI)
      fix x assume "x \<in> {j. i \<le>s j \<and> j <s n}"
      then have x: "sint i \<le> sint x" "sint x < sint n" by (simp_all add: word_sle_eq word_sless_alt)
      show "x \<in> insert i {j. i + 1 \<le>s j \<and> j <s n}"
      proof (cases "x = i")
        case False
        then have "sint x \<noteq> sint i" using signed_word_eqI [of x i] by blast
        with x show ?thesis using sint_succ [OF True] by (simp add: word_sle_eq word_sless_alt)
      qed simp
    next
      fix x assume "x \<in> insert i {j. i + 1 \<le>s j \<and> j <s n}"
      then show "x \<in> {j. i \<le>s j \<and> j <s n}"
        using True sint_succ [OF True] by (auto simp: word_sle_eq word_sless_alt)
    qed
    with True 1 show ?thesis
      by (subst build_loop.simps) auto
  next
    case False
    then have e: "{j. i \<le>s j \<and> j <s n} = {}"
      by (auto simp: word_sle_eq word_sless_alt)
    show ?thesis
      unfolding e using False by (subst build_loop.simps) simp
  qed
qed

lemma index_set: "{j :: go_int. 0 \<le>s j \<and> j <s n} = word_of_nat ` {0..<nat (sint n)}"
proof (intro equalityI subsetI)
  fix j :: go_int
  assume "j \<in> {j. 0 \<le>s j \<and> j <s n}"
  then have j: "0 \<le> sint j" "sint j < sint n"
    by (simp_all add: word_sle_eq word_sless_alt)
  have "word_of_nat (nat (sint j)) = (word_of_int (sint j) :: go_int)"
    using j by simp
  then have "j = word_of_nat (nat (sint j))" by simp
  moreover have "nat (sint j) \<in> {0..<nat (sint n)}" using j by simp
  ultimately show "j \<in> word_of_nat ` {0..<nat (sint n)}" by blast
next
  fix j :: go_int
  assume "j \<in> word_of_nat ` {0..<nat (sint n)}"
  then obtain k where k: "j = word_of_nat k" "k < nat (sint n)" by auto
  have "sint j = int k" using k below_count [of k n] by (simp add: sint_word_of_nat64)
  with k(2) show "j \<in> {j. 0 \<le>s j \<and> j <s n}"
    by (simp add: word_sle_eq word_sless_alt)
qed

lemma inj_on_index: "inj_on (word_of_nat :: nat \<Rightarrow> go_int) {0..<nat (sint (n :: go_int))}"
proof (rule inj_onI)
  fix a b :: nat
  assume a: "a \<in> {0..<nat (sint n)}" and b: "b \<in> {0..<nat (sint n)}"
    and eq: "(word_of_nat a :: go_int) = word_of_nat b"
  have "a < nat (sint n)" using a by simp
  then have "a < 2 ^ 63" by (rule below_count)
  then have sa: "sint (word_of_nat a :: go_int) = int a" by (rule sint_word_of_nat64)
  have "b < nat (sint n)" using b by simp
  then have "b < 2 ^ 63" by (rule below_count)
  then have sb: "sint (word_of_nat b :: go_int) = int b" by (rule sint_word_of_nat64)
  from eq have "sint (word_of_nat a :: go_int) = sint (word_of_nat b :: go_int)" by (rule arg_cong)
  then have "int a = int b" by (simp only: sa sb)
  then show "a = b" by (simp only: of_nat_eq_iff)
qed

lemma build_lookup:
  "fmlookup (build N base) k =
     (if k \<in> (\<lambda>i. Itoa (base + word_of_nat i)) ` {0..<nat (sint N)} then Some False else None)"
proof -
  have "(\<lambda>j. Itoa (base + j)) ` {j. 0 \<le>s j \<and> j <s N} = (\<lambda>i. Itoa (base + word_of_nat i)) ` {0..<nat (sint N)}"
    by (simp only: index_set image_image)
  then show ?thesis
    by (simp only: build_def build_loop_lookup fmempty_lookup)
qed

lemma build_dom: "fmdom' (build N base) = (\<lambda>i. Itoa (base + word_of_nat i)) ` {0..<nat (sint N)}"
  by (auto simp: fmlookup_dom'_iff build_lookup split: if_splits)

lemma inj_on_keys: "inj_on (\<lambda>i. Itoa (base + word_of_nat i)) {0..<nat (sint (N :: go_int))}"
proof (rule inj_onI)
  fix a b
  assume a: "a \<in> {0..<nat (sint N)}" and b: "b \<in> {0..<nat (sint N)}"
    and "Itoa (base + word_of_nat a) = Itoa (base + word_of_nat b)"
  then have "base + word_of_nat a = base + word_of_nat b" by (simp only: Itoa_inj)
  then have "(word_of_nat a :: go_int) = word_of_nat b" by simp
  from inj_onD [OF inj_on_index this a b] show "a = b" .
qed

lemma build_card: "fcard (fmdom (build N base)) = nat (sint N)"
proof -
  have "fcard (fmdom (build N base)) = card (fmdom' (build N base))"
    by (simp add: fcard.rep_eq fmdom'_alt_def)
  also have "\<dots> = card {0..<nat (sint N)}"
    unfolding build_dom by (rule card_image) (rule inj_on_keys)
  finally show ?thesis by simp
qed

text \<open>
  Claim C6. For every count \<open>N \<ge> 1\<close> and every base, the universe that \<open>main\<close> builds
  has exactly \<open>N\<close> entries; its keys are the decimal strings of \<open>base + i\<close> for
  \<open>i\<close> in \<open>[0, N)\<close>, and every entry is \<open>false\<close>: a key is looked up as
  \<open>Some False\<close>, anything else as \<open>None\<close>.
\<close>

theorem build_universe:
  assumes "1 \<le>s N"
  shows "int (fcard (fmdom (build N base))) = sint N
    \<and> fmdom' (build N base) = (\<lambda>i. Itoa (base + word_of_nat i)) ` {0..<nat (sint N)}
    \<and> fmlookup (build N base) k =
        (if k \<in> (\<lambda>i. Itoa (base + word_of_nat i)) ` {0..<nat (sint N)} then Some False else None)"
proof -
  from assms have "0 \<le> sint N" by (simp add: word_sle_eq)
  then have "int (fcard (fmdom (build N base))) = sint N" by (simp add: build_card)
  then show ?thesis by (simp only: build_dom build_lookup simp_thms)
qed

theorem build_universe_witness:
  "(1 :: go_int) \<le>s 5
    \<and> int (fcard (fmdom (build 5 idCounterBase))) = 5
    \<and> fmdom (build 5 idCounterBase) = {|''10000000'', ''10000001'', ''10000002'', ''10000003'', ''10000004''|}
    \<and> fmlookup (build 5 idCounterBase) ''10000003'' = Some False
    \<and> fmlookup (build 5 idCounterBase) ''10000005'' = None"
proof -
  have h: "(1 :: go_int) \<le>s 5" by (simp add: word_sle_eq)
  have b: "build 5 idCounterBase =
      fmupd ''10000004'' False (fmupd ''10000003'' False (fmupd ''10000002'' False
        (fmupd ''10000001'' False (fmupd ''10000000'' False fmempty))))"
    by (simp add: build_def build_loop.simps idCounterBase_def Itoa_def decimal.simps digit_char_def word_sless_alt)
  have keys: "fmdom (build 5 idCounterBase) = {|''10000000'', ''10000001'', ''10000002'', ''10000003'', ''10000004''|}"
    unfolding b by auto
  have l3: "fmlookup (build 5 idCounterBase) ''10000003'' = Some False" unfolding b by simp
  have l5: "fmlookup (build 5 idCounterBase) ''10000005'' = None" unfolding b by simp
  have s: "sint (5 :: go_int) = 5" by simp
  from build_universe [OF h, of idCounterBase]
  have n: "int (fcard (fmdom (build 5 idCounterBase))) = 5" unfolding s by (rule conjunct1)
  show ?thesis by (intro conjI h n keys l3 l5)
qed

subsection \<open>The report\<close>

lemma lossPercent_sint:
  assumes N: "0 <s N"
    and lo: "- (2 ^ 63) \<le> (sint N - sint u) * 100" and hi: "(sint N - sint u) * 100 < 2 ^ 63"
  shows "sint (lossPercent N u) = ((sint N - sint u) * 100) sdiv sint N"
proof -
  from N have n: "0 < sint N" by (simp add: word_sless_alt)
  from times_100_range [OF lo hi] have "- (2 ^ 63) \<le> sint N - sint u" "sint N - sint u < 2 ^ 63"
    by simp_all
  then have d: "sint (N - u) = sint N - sint u" by (rule sint_minus64)
  from lo hi have p: "sint ((N - u) * 100) = (sint N - sint u) * 100"
    using sint_times_100 [of "N - u"] by (simp only: d)
  from sdiv_in_range [OF n lo hi]
  have "sint (word_of_int (((sint N - sint u) * 100) sdiv sint N) :: go_int) = ((sint N - sint u) * 100) sdiv sint N"
    using sint_word_of_int64 by blast
  then show ?thesis by (simp only: lossPercent_def go_div_def p)
qed

lemma lossPercent_all_found: "lossPercent N N = 0"
  by (simp add: lossPercent_def go_div_def)

lemma lossPercent_none_found:
  assumes N: "0 <s N" and b: "sint N \<le> 92233720368547758"
  shows "lossPercent N 0 = 100"
proof -
  from N have n: "0 < sint N" by (simp add: word_sless_alt)
  have "sint (lossPercent N 0) = ((sint N - sint (0 :: go_int)) * 100) sdiv sint N"
    using N n b by (intro lossPercent_sint) simp_all
  also have "\<dots> = 100" using n by (simp add: signed_divide_int_def sgn_if)
  finally have "sint (lossPercent N 0) = sint (100 :: go_int)" by simp
  then show ?thesis by (rule signed_word_eqI)
qed

lemma uniqueRecordFound_nonneg:
  assumes "fcard (fmdom m) < 2 ^ 63"
  shows "0 \<le>s uniqueRecordFound m"
proof -
  have "fcard (ffilter (\<lambda>k. fmlookup m k = Some True) (fmdom m)) \<le> fcard (fmdom m)"
    by (rule fcard_mono) auto
  from this assms have "fcard (ffilter (\<lambda>k. fmlookup m k = Some True) (fmdom m)) < 2 ^ 63" by (rule le_less_trans)
  then have "sint (uniqueRecordFound m) = int (fcard (ffilter (\<lambda>k. fmlookup m k = Some True) (fmdom m)))"
    unfolding uniqueRecordFound_def by (rule sint_word_of_nat64)
  then show ?thesis by (simp add: word_sle_eq)
qed

lemma duplicates_nonneg:
  assumes "0 \<le>s u" "u \<le>s T"
  shows "0 \<le>s duplicates T u"
proof -
  from assms have u: "0 \<le> sint u" "sint u \<le> sint T" by (simp_all add: word_sle_eq)
  have "sint T < 2 ^ 63" using sint_range64 [of T] by simp
  with u have "- (2 ^ 63) \<le> sint T - sint u" "sint T - sint u < 2 ^ 63" by linarith+
  then have "sint (T - u) = sint T - sint u" by (rule sint_minus64)
  with u show ?thesis by (simp add: duplicates_def word_sle_eq)
qed

lemma ffilter_finsert: "ffilter P (finsert x A) = (if P x then finsert x (ffilter P A) else ffilter P A)"
  by auto

lemma ffilter_fempty: "ffilter P {||} = {||}"
  by auto

lemmas universe_eval = uniqueRecordFound_def fmdom_fmupd fmdom_empty ffilter_finsert ffilter_fempty
  fmupd_lookup fcard_finsert_if fcard_fempty

text \<open>
  Claim C5, as amended. For every \<open>N > 0\<close>, \<open>T\<close> and final universe, \<open>get_results\<close> prints
  the duplicates \<open>T - uniqueFound\<close> and the loss \<open>(N - uniqueFound) * 100 / N\<close>, computed
  in Go's 64-bit \<open>int\<close>. The loss is the quotient of the integers, truncated toward zero,
  whenever \<open>(N - uniqueFound) * 100\<close> is in the range of \<open>int\<close>; it is 0 when
  \<open>uniqueFound = N\<close>, and 100 when \<open>uniqueFound = 0\<close> and \<open>N \<le> 92233720368547758\<close>. The
  duplicates are not negative when \<open>T \<ge> uniqueFound\<close> and the map has fewer than
  \<open>2^63\<close> entries.
\<close>

theorem get_results_metrics:
  assumes "0 <s N"
  shows "get_results N T m d =
      (Inr (),
       [Println [S ''Total input record: '', I N],
        Println [S ''Total record in destination: '', I T],
        Println [S ''Unique record in destination: '', I (uniqueRecordFound m)],
        Println [S ''Duplicate records: '', I (T - uniqueRecordFound m)],
        Println [S ''Log Delay: '', S d],
        Println [S ''Log Loss: '', I (lossPercent N (uniqueRecordFound m)), S ''%'']]
       @ (if N \<noteq> uniqueRecordFound m
          then [Println [S ''Number of missing log records: '', I (N - uniqueRecordFound m)]] else []))
    \<and> (- (2 ^ 63) \<le> (sint N - sint (uniqueRecordFound m)) * 100
         \<and> (sint N - sint (uniqueRecordFound m)) * 100 < 2 ^ 63
       \<longrightarrow> sint (lossPercent N (uniqueRecordFound m)) = ((sint N - sint (uniqueRecordFound m)) * 100) sdiv sint N)
    \<and> (uniqueRecordFound m = N \<longrightarrow> lossPercent N (uniqueRecordFound m) = 0)
    \<and> (uniqueRecordFound m = 0 \<and> sint N \<le> 92233720368547758 \<longrightarrow> lossPercent N (uniqueRecordFound m) = 100)
    \<and> (fcard (fmdom m) < 2 ^ 63 \<and> uniqueRecordFound m \<le>s T \<longrightarrow> 0 \<le>s T - uniqueRecordFound m)"
proof (intro conjI impI)
  from assms have "N \<noteq> 0" by auto
  then show "get_results N T m d =
      (Inr (),
       [Println [S ''Total input record: '', I N],
        Println [S ''Total record in destination: '', I T],
        Println [S ''Unique record in destination: '', I (uniqueRecordFound m)],
        Println [S ''Duplicate records: '', I (T - uniqueRecordFound m)],
        Println [S ''Log Delay: '', S d],
        Println [S ''Log Loss: '', I (lossPercent N (uniqueRecordFound m)), S ''%'']]
       @ (if N \<noteq> uniqueRecordFound m
          then [Println [S ''Number of missing log records: '', I (N - uniqueRecordFound m)]] else []))"
    by (simp add: get_results_def duplicates_def Let_def)
next
  assume "- (2 ^ 63) \<le> (sint N - sint (uniqueRecordFound m)) * 100
         \<and> (sint N - sint (uniqueRecordFound m)) * 100 < 2 ^ 63"
  with assms show "sint (lossPercent N (uniqueRecordFound m)) = ((sint N - sint (uniqueRecordFound m)) * 100) sdiv sint N"
    by (simp add: lossPercent_sint)
next
  assume "uniqueRecordFound m = N"
  then show "lossPercent N (uniqueRecordFound m) = 0" by (simp add: lossPercent_all_found)
next
  assume "uniqueRecordFound m = 0 \<and> sint N \<le> 92233720368547758"
  with assms show "lossPercent N (uniqueRecordFound m) = 100" by (simp add: lossPercent_none_found)
next
  assume "fcard (fmdom m) < 2 ^ 63 \<and> uniqueRecordFound m \<le>s T"
  then have "0 \<le>s duplicates T (uniqueRecordFound m)"
    by (intro duplicates_nonneg uniqueRecordFound_nonneg) simp_all
  then show "0 \<le>s T - uniqueRecordFound m" by (simp only: duplicates_def)
qed

theorem get_results_metrics_witness:
  "(0 :: go_int) <s 5
    \<and> get_results 5 5 found3of5 ''1s'' =
      (Inr (),
       [Println [S ''Total input record: '', I 5],
        Println [S ''Total record in destination: '', I 5],
        Println [S ''Unique record in destination: '', I 3],
        Println [S ''Duplicate records: '', I 2],
        Println [S ''Log Delay: '', S ''1s''],
        Println [S ''Log Loss: '', I 40, S ''%''],
        Println [S ''Number of missing log records: '', I 2]])
    \<and> sint (lossPercent 5 (uniqueRecordFound found3of5)) = 40
    \<and> lossPercent 2 (uniqueRecordFound found2of2) = 0
    \<and> lossPercent 5 (uniqueRecordFound (fmupd ''10000000'' False fmempty)) = 100
    \<and> 0 \<le>s 5 - uniqueRecordFound found3of5"
proof -
  have h5: "(0 :: go_int) <s 5" and h2: "(0 :: go_int) <s 2" by (simp_all add: word_sless_alt)
  have u3: "uniqueRecordFound found3of5 = 3" by (simp add: found3of5_def universe_eval)
  have u2: "uniqueRecordFound found2of2 = 2" by (simp add: found2of2_def universe_eval)
  have u0: "uniqueRecordFound (fmupd ''10000000'' False fmempty) = 0" by (simp add: universe_eval)
  have c5: "fcard (fmdom found3of5) < 2 ^ 63" by (simp add: found3of5_def universe_eval)
  have l40: "lossPercent 5 3 = 40" by (simp add: lossPercent_def go_div_def)
  note a = get_results_metrics [OF h5, of 5 found3of5 "''1s''"]
  note b = get_results_metrics [OF h2, of 0 found2of2 "''1s''"]
  note c = get_results_metrics [OF h5, of 0 "fmupd ''10000000'' False fmempty" "''1s''"]
  from a have 1: "get_results 5 5 found3of5 ''1s'' =
      (Inr (),
       [Println [S ''Total input record: '', I 5],
        Println [S ''Total record in destination: '', I 5],
        Println [S ''Unique record in destination: '', I 3],
        Println [S ''Duplicate records: '', I 2],
        Println [S ''Log Delay: '', S ''1s''],
        Println [S ''Log Loss: '', I 40, S ''%''],
        Println [S ''Number of missing log records: '', I 2]])"
    by (simp add: u3 l40)
  from a have 2: "sint (lossPercent 5 (uniqueRecordFound found3of5)) = 40"
    by (simp add: u3)
  from b have 3: "lossPercent 2 (uniqueRecordFound found2of2) = 0"
    by (simp add: u2)
  from c have 4: "lossPercent 5 (uniqueRecordFound (fmupd ''10000000'' False fmempty)) = 100"
    by (simp add: u0)
  from a c5 have 5: "0 \<le>s 5 - uniqueRecordFound found3of5"
    by (simp add: u3 word_sle_eq)
  show ?thesis by (intro conjI h5 1 2 3 4 5)
qed

text \<open>
  Claim C5 as stated fails where the product wraps: with \<open>N = 2^62\<close> and nothing found,
  \<open>(N - 0) * 100\<close> is 0 in 64 bits, and the loss printed is 0, not 100.
\<close>

theorem get_results_loss_counterexample:
  "(0 :: go_int) <s 2 ^ 62
    \<and> uniqueRecordFound fmempty = 0
    \<and> lossPercent (2 ^ 62) (uniqueRecordFound fmempty) \<noteq> 100
    \<and> get_results (2 ^ 62) 0 fmempty ''1s'' =
      (Inr (),
       [Println [S ''Total input record: '', I (2 ^ 62)],
        Println [S ''Total record in destination: '', I 0],
        Println [S ''Unique record in destination: '', I 0],
        Println [S ''Duplicate records: '', I 0],
        Println [S ''Log Delay: '', S ''1s''],
        Println [S ''Log Loss: '', I 0, S ''%''],
        Println [S ''Number of missing log records: '', I (2 ^ 62)]])"
proof -
  have u0: "uniqueRecordFound fmempty = 0" by (simp add: universe_eval)
  show ?thesis
    by (simp add: u0 get_results_def duplicates_def Let_def lossPercent_def go_div_def word_sless_alt)
qed

subsection \<open>The example, run\<close>

lemmas run_eval = validate_cloudwatch_def validate_s3_def first8_def observe_def StringValue_def BoolValue_def Let_def
  getS3Object_def ReadAll_def example_Unmarshal_def example_objects_def example_listing_def example_listings_def
  example_pages_def example_responses_def

lemmas build_eval = build_def build_loop.simps idCounterBase_def Itoa_def decimal.simps digit_char_def word_sless_alt

lemmas env_eval = envAWSRegion_def envS3Bucket_def envCWLogGroup_def envLogPrefix_def envDestination_def

lemmas Atoi_eval = Atoi_def ParseInt_def ParseUint_def is_digit_def digit_val_def Let_def

lemma build_5: "build 5 idCounterBase =
    fmupd ''10000004'' False (fmupd ''10000003'' False (fmupd ''10000002'' False
      (fmupd ''10000001'' False (fmupd ''10000000'' False fmempty))))"
  by (simp add: build_eval)

lemma found3of5_observed:
  "found3of5 = fmupd ''10000003'' True (fmupd ''10000001'' True (fmupd ''10000000'' True
     (fmupd ''10000004'' False (fmupd ''10000003'' False (fmupd ''10000002'' False
       (fmupd ''10000001'' False (fmupd ''10000000'' False fmempty)))))))"
  by (rule fmap_ext) (auto simp: found3of5_def)

lemma example_cloudwatch_run:
  "validate_cloudwatch example_pages ''load-test-group'' ''load-test'' (build 5 idCounterBase) =
   (Inr (5, found3of5),
     [GetLogEvents (GetLogEventsInput ''load-test-group'' ''load-test'' None True),
      GetLogEvents (GetLogEventsInput ''load-test-group'' ''load-test'' (Some ''f/1'') True),
      GetLogEvents (GetLogEventsInput ''load-test-group'' ''load-test'' (Some ''f/2'') True)])"
  unfolding found3of5_observed build_5 by (simp add: run_eval)

lemma example_s3_run:
  "validate_s3 example_Unmarshal example_listing example_objects ''load-test-bucket'' ''load-test'' (build 5 idCounterBase) =
   (Inr (5, found3of5),
      [ListObjectsV2 (ListObjectsV2Input ''load-test-bucket'' None ''load-test''),
       GetObject (GetObjectInput ''load-test-bucket'' ''logs/1''),
       ListObjectsV2 (ListObjectsV2Input ''load-test-bucket'' (Some ''c1'') ''load-test''),
       GetObject (GetObjectInput ''load-test-bucket'' ''logs/2''),
       ListObjectsV2 (ListObjectsV2Input ''load-test-bucket'' (Some ''c2'') ''load-test''),
       Println [S ''Total object in S3: '', I 2]])"
  unfolding found3of5_observed build_5 by (simp add: run_eval)

lemma Atoi_5: "Atoi ''5'' = 5"
  by (simp add: Atoi_eval)

text \<open>
  Some values of \<open>Atoi\<close>: a sign, a text that is no number, numbers outside \<open>int\<close>,
  and a number that has left the 64 bits before a byte that is no digit is reached.
\<close>

lemma Atoi_examples:
  "Atoi ''+12'' = 12" "Atoi ''-5'' = - 5" "Atoi ''0'' = 0" "Atoi ''abc'' = 0" "Atoi ''-'' = 0" "Atoi ''12x'' = 0"
  "Atoi ''9223372036854775807'' = 2 ^ 63 - 1" "Atoi ''9223372036854775808'' = 2 ^ 63 - 1"
  "Atoi ''-9223372036854775808'' = - (2 ^ 63)" "Atoi ''-9223372036854775809'' = - (2 ^ 63)"
  "Atoi ''99999999999999999999x'' = 2 ^ 63 - 1" "Atoi ''-99999999999999999999x'' = - (2 ^ 63)"
  "Atoi ''18446744073709551616'' = 2 ^ 63 - 1"
  by (simp_all add: Atoi_eval)

lemma unique_3of5: "uniqueRecordFound found3of5 = 3"
  by (simp add: found3of5_def universe_eval)

lemma report_3of5:
  "get_results 5 5 found3of5 ''1s'' =
      (Inr (),
       [Println [S ''Total input record: '', I 5],
        Println [S ''Total record in destination: '', I 5],
        Println [S ''Unique record in destination: '', I 3],
        Println [S ''Duplicate records: '', I 2],
        Println [S ''Log Delay: '', S ''1s''],
        Println [S ''Log Loss: '', I 40, S ''%''],
        Println [S ''Number of missing log records: '', I 2]])"
  by (simp add: get_results_def unique_3of5 duplicates_def lossPercent_def go_div_def)

lemma example_main_cloudwatch:
  "main (example_world ''cloudwatch'' ''5'') =
      (Inr (),
       [GetLogEvents (GetLogEventsInput ''load-test-group'' ''load-test'' None True),
        GetLogEvents (GetLogEventsInput ''load-test-group'' ''load-test'' (Some ''f/1'') True),
        GetLogEvents (GetLogEventsInput ''load-test-group'' ''load-test'' (Some ''f/2'') True),
        Println [S ''Total input record: '', I 5],
        Println [S ''Total record in destination: '', I 5],
        Println [S ''Unique record in destination: '', I 3],
        Println [S ''Duplicate records: '', I 2],
        Println [S ''Log Delay: '', S ''1s''],
        Println [S ''Log Loss: '', I 40, S ''%''],
        Println [S ''Number of missing log records: '', I 2]])"
  by (simp add: main_def example_world_def read_destination_def getCWClient_def env_eval
      Atoi_5 example_cloudwatch_run report_3of5 Let_def)

lemma example_main_s3:
  "main (example_world ''s3'' ''5'') =
      (Inr (),
       [ListObjectsV2 (ListObjectsV2Input ''load-test-bucket'' None ''load-test''),
        GetObject (GetObjectInput ''load-test-bucket'' ''logs/1''),
        ListObjectsV2 (ListObjectsV2Input ''load-test-bucket'' (Some ''c1'') ''load-test''),
        GetObject (GetObjectInput ''load-test-bucket'' ''logs/2''),
        ListObjectsV2 (ListObjectsV2Input ''load-test-bucket'' (Some ''c2'') ''load-test''),
        Println [S ''Total object in S3: '', I 2],
        Println [S ''Total input record: '', I 5],
        Println [S ''Total record in destination: '', I 5],
        Println [S ''Unique record in destination: '', I 3],
        Println [S ''Duplicate records: '', I 2],
        Println [S ''Log Delay: '', S ''1s''],
        Println [S ''Log Loss: '', I 40, S ''%''],
        Println [S ''Number of missing log records: '', I 2]])"
  by (simp add: main_def example_world_def read_destination_def getS3Client_def env_eval
      Atoi_5 example_s3_run report_3of5 Let_def)

subsection \<open>Observation and the invariant of the universe\<close>

lemma flags_grow_refl: "flags_grow m m"
  by (simp add: flags_grow_def)

lemma flags_grow_trans: "flags_grow a b \<Longrightarrow> flags_grow b c \<Longrightarrow> flags_grow a c"
  by (simp add: flags_grow_def)

lemma observe_fst: "fst (observe recordId st) = fst st + 1"
  by (simp add: observe_def split: prod.splits)

lemma observe_dom: "fmdom (snd (observe recordId st)) = fmdom (snd st)"
  by (auto simp: observe_def split: prod.splits)

lemma observe_lookup:
  "fmlookup (snd (observe recordId st)) k =
     (if k = recordId \<and> recordId |\<in>| fmdom (snd st) then Some True else fmlookup (snd st) k)"
  by (auto simp: observe_def split: prod.splits)

lemma observe_grows: "flags_grow (snd st) (snd (observe recordId st))"
  by (simp add: flags_grow_def observe_dom observe_lookup)

lemma observe_twice: "snd (observe recordId (observe recordId st)) = snd (observe recordId st)"
  by (rule fmap_ext) (simp add: observe_lookup observe_dom)

lemma first8_Inr: "first8 log = Inr recordId \<Longrightarrow> recordId = take 8 log \<and> 8 \<le> length log"
  by (auto simp: first8_def split: if_splits)

lemma cw_events_grows:
  "cw_events events st = Inr st' \<Longrightarrow> flags_grow (snd st) (snd st')"
proof (induction events arbitrary: st)
  case Nil
  then show ?case by (simp add: flags_grow_refl)
next
  case (Cons e events)
  from Cons.prems obtain recordId where r: "first8 (StringValue e) = Inr recordId"
    and rest: "cw_events events (observe recordId st) = Inr st'"
    by (auto split: sum.splits)
  from Cons.IH [OF rest] observe_grows [of st recordId] show ?case
    by (blast intro: flags_grow_trans)
qed

lemma s3_lines_grows:
  "s3_lines U ds st = Inr st' \<Longrightarrow> flags_grow (snd st) (snd st')"
proof (induction ds arbitrary: st)
  case Nil
  then show ?case by (simp add: flags_grow_refl)
next
  case (Cons d ds)
  show ?case
  proof (cases "d = []")
    case True
    with Cons show ?thesis by simp
  next
    case False
    with Cons.prems obtain log recordId where "U d = Inr log" and r: "first8 log = Inr recordId"
      and rest: "s3_lines U ds (observe recordId st) = Inr st'"
      by (auto split: sum.splits)
    from Cons.IH [OF rest] observe_grows [of st recordId] show ?thesis
      by (blast intro: flags_grow_trans)
  qed
qed

lemma s3_contents_grows:
  "s3_contents U objs bucket keys st = (Inr st', tr) \<Longrightarrow> flags_grow (snd (snd st)) (snd (snd st'))"
proof (induction keys arbitrary: st tr)
  case Nil
  then show ?case by (simp add: flags_grow_refl)
next
  case (Cons key keys)
  obtain oc rest where st: "st = (oc, rest)" by (cases st)
  from Cons.prems st obtain obj dataByte rest' tr' where
    "getS3Object objs (GetObjectInput bucket key) = Inr obj" and "ReadAll obj = Inr dataByte"
    and l: "s3_lines U (Split dataByte (CHR 0x0A)) rest = Inr rest'"
    and c: "s3_contents U objs bucket keys (oc + 1, rest') = (Inr st', tr')"
    by (auto split: sum.splits prod.splits)
  from s3_lines_grows [OF l] Cons.IH [OF c] st show ?case
    by (auto intro: flags_grow_trans)
qed

lemma s3_loop_grows:
  "s3_loop U objs bucket prefix token replies st = (Inr st', tr) \<Longrightarrow> flags_grow (snd (snd st)) (snd (snd st'))"
proof (induction replies arbitrary: token st tr)
  case Nil
  then show ?case by simp
next
  case (Cons reply replies)
  from Cons.prems obtain response st1 tr1 where reply: "reply = Inr response"
    and c: "s3_contents U objs bucket (Contents response) st = (Inr st1, tr1)"
    by (auto simp: Let_def split: sum.splits prod.splits)
  note g1 = s3_contents_grows [OF c]
  show ?case
  proof (cases "BoolValue (IsTruncated response)")
    case False
    with Cons.prems reply c have "st' = st1" by (simp add: Let_def)
    with g1 show ?thesis by simp
  next
    case True
    with Cons.prems reply c obtain tr2 where
      "s3_loop U objs bucket prefix (NextContinuationToken response) replies st1 = (Inr st', tr2)"
      by (auto simp: Let_def split: prod.splits)
    from g1 Cons.IH [OF this] show ?thesis by (rule flags_grow_trans)
  qed
qed

lemma validate_s3_grows:
  "validate_s3 U listing objs bucket prefix inputMap = (Inr (n, inputMap'), tr) \<Longrightarrow> flags_grow inputMap inputMap'"
proof -
  assume "validate_s3 U listing objs bucket prefix inputMap = (Inr (n, inputMap'), tr)"
  then obtain oc tr' where "s3_loop U objs bucket prefix None listing (0, 0, inputMap) = (Inr (oc, n, inputMap'), tr')"
    by (auto simp: validate_s3_def split: prod.splits sum.splits)
  from s3_loop_grows [OF this] show ?thesis by simp
qed

lemma cw_loop_grows:
  "cw_loop g s token replies st = (Inr st', tr) \<Longrightarrow> flags_grow (snd st) (snd st')"
proof (induction g s token replies st arbitrary: st' tr rule: cw_loop.induct)
  case (1 logGroup logStream forwardToken st)
  then show ?case by simp
next
  case (2 logGroup logStream forwardToken reply replies st)
  define input where "input = (if forwardToken = None then GetLogEventsInput logGroup logStream None True
                   else GetLogEventsInput logGroup logStream forwardToken True)"
  from "2.prems" obtain response replies' tr1 st1 where
    r: "cw_retry logGroup input reply replies = (Inr (response, replies'), tr1)"
    and e: "cw_events (Events response) st = Inr st1"
    by (auto simp: Let_def input_def split: sum.splits prod.splits)
  note g1 = cw_events_grows [OF e]
  show ?case
  proof (cases "StringValue (NextForwardToken response) = StringValue forwardToken")
    case True
    with "2.prems" r e have "st' = st1" by (simp add: Let_def input_def)
    with g1 show ?thesis by simp
  next
    case False
    with "2.prems" r e obtain tr2 where
      l: "cw_loop logGroup logStream (NextForwardToken response) replies' st1 = (Inr st', tr2)"
      by (auto simp: Let_def input_def split: prod.splits)
    have "flags_grow (snd st1) (snd st')"
      using "2.IH" [OF input_def r [symmetric] refl refl e False l] .
    with g1 show ?thesis by (rule flags_grow_trans)
  qed
qed

lemma validate_cloudwatch_grows:
  "validate_cloudwatch cwClient logGroup logStream inputMap = (Inr (n, inputMap'), tr) \<Longrightarrow> flags_grow inputMap inputMap'"
  unfolding validate_cloudwatch_def using cw_loop_grows [of logGroup logStream None cwClient "(0, inputMap)" "(n, inputMap')" tr]
  by simp

text \<open>
  Claim C4. Observing a record identifier adds exactly 1 to the counter of lines seen,
  whatever the identifier. If the identifier is a key of the universe its flag becomes
  true; observing it a second time leaves the map as it is and the counter 2 higher than at
  the start. An identifier that is not a key changes no flag, and the flags of the other
  keys are never touched. This is the step that the loops of both strategies take for a
  line whose payload has at least 8 bytes.
\<close>

theorem observe_counter_and_flag:
  "fst (observe recordId (counter, inputMap)) = counter + 1
    \<and> (recordId |\<in>| fmdom inputMap \<longrightarrow> fmlookup (snd (observe recordId (counter, inputMap))) recordId = Some True)
    \<and> observe recordId (observe recordId (counter, inputMap)) = (counter + 2, snd (observe recordId (counter, inputMap)))
    \<and> (recordId |\<notin>| fmdom inputMap \<longrightarrow> snd (observe recordId (counter, inputMap)) = inputMap)
    \<and> (k \<noteq> recordId \<longrightarrow> fmlookup (snd (observe recordId (counter, inputMap))) k = fmlookup inputMap k)
    \<and> (sint counter < 2 ^ 63 - 1 \<longrightarrow> sint (fst (observe recordId (counter, inputMap))) = sint counter + 1)
    \<and> (8 \<le> length log \<longrightarrow> cw_events [Some log] (counter, inputMap) = Inr (observe (take 8 log) (counter, inputMap)))
    \<and> (d \<noteq> [] \<and> decode d = Inr log \<and> 8 \<le> length log
         \<longrightarrow> s3_lines decode [d] (counter, inputMap) = Inr (observe (take 8 log) (counter, inputMap)))"
proof (intro conjI impI)
  show "fst (observe recordId (counter, inputMap)) = counter + 1"
    by (simp add: observe_fst)
  show "fmlookup (snd (observe recordId (counter, inputMap))) recordId = Some True"
    if "recordId |\<in>| fmdom inputMap"
    using that by (simp add: observe_lookup)
  have "fst (observe recordId (observe recordId (counter, inputMap))) = counter + 2"
    by (simp add: observe_fst)
  then show "observe recordId (observe recordId (counter, inputMap)) = (counter + 2, snd (observe recordId (counter, inputMap)))"
    using observe_twice [of recordId "(counter, inputMap)"] by (simp add: prod_eq_iff)
  show "snd (observe recordId (counter, inputMap)) = inputMap" if "recordId |\<notin>| fmdom inputMap"
    using that by (simp add: observe_def)
  show "fmlookup (snd (observe recordId (counter, inputMap))) k = fmlookup inputMap k" if "k \<noteq> recordId"
    using that by (simp add: observe_lookup)
  show "sint (fst (observe recordId (counter, inputMap))) = sint counter + 1" if "sint counter < 2 ^ 63 - 1"
  proof -
    have "- (2 ^ 63) \<le> sint counter" using sint_range64 [of counter] by simp
    with that have "signed_take_bit 63 (sint counter + 1) = sint counter + 1"
      by (simp add: signed_take_bit_int_eq_self)
    then show ?thesis by (simp add: observe_fst sint_word_add)
  qed
  show "cw_events [Some log] (counter, inputMap) = Inr (observe (take 8 log) (counter, inputMap))"
    if "8 \<le> length log"
    using that by (simp add: first8_def StringValue_def)
  show "s3_lines decode [d] (counter, inputMap) = Inr (observe (take 8 log) (counter, inputMap))"
    if "d \<noteq> [] \<and> decode d = Inr log \<and> 8 \<le> length log"
    using that by (simp add: first8_def)
qed

theorem observe_counter_and_flag_witness:
  "fst (observe ''10000000'' (0, build 5 idCounterBase)) = 1
    \<and> fmlookup (snd (observe ''10000000'' (0, build 5 idCounterBase))) ''10000000'' = Some True
    \<and> fst (observe ''10000000'' (observe ''10000000'' (0, build 5 idCounterBase))) = 2
    \<and> fmlookup (snd (observe ''10000000'' (observe ''10000000'' (0, build 5 idCounterBase)))) ''10000000'' = Some True
    \<and> observe ''99999999'' (0, build 5 idCounterBase) = (1, build 5 idCounterBase)
    \<and> fmlookup (snd (observe ''10000000'' (0, build 5 idCounterBase))) ''10000001'' = Some False
    \<and> sint (fst (observe ''10000000'' (0, build 5 idCounterBase))) = 1
    \<and> cw_events [Some ''10000000_1639151827578_a''] (0, build 5 idCounterBase)
        = Inr (observe ''10000000'' (0, build 5 idCounterBase))
    \<and> s3_lines example_Unmarshal [example_line] (0, build 5 idCounterBase)
        = Inr (observe ''10000000'' (0, build 5 idCounterBase))"
proof -
  have known: "''10000000'' |\<in>| fmdom (build 5 idCounterBase)"
    and unknown: "''99999999'' |\<notin>| fmdom (build 5 idCounterBase)"
    and other: "fmlookup (build 5 idCounterBase) ''10000001'' = Some False"
    by (simp_all add: build_5)
  have dec: "example_Unmarshal example_line = Inr ''10000000_1639151827578_a''" "example_line \<noteq> []"
    by (simp_all add: example_Unmarshal_def example_line_def)
  note a = observe_counter_and_flag [of "''10000000''" 0 "build 5 idCounterBase" "''10000001''"
      "''10000000_1639151827578_a''" example_line example_Unmarshal]
  note b = observe_counter_and_flag [of "''99999999''" 0 "build 5 idCounterBase"]
  from a known other dec b unknown show ?thesis
    by (simp add: prod_eq_iff)
qed

text \<open>
  Claim C7. The invariant of the universe holds across every observation, and so across
  a whole traversal of either strategy: the set of keys never changes (an identifier
  outside the initial set is never inserted), and a flag that is true is never reset.
\<close>

theorem universe_invariant:
  "flags_grow inputMap (snd (observe recordId (counter, inputMap)))
    \<and> (validate_s3 decode listing s3Client bucket prefix inputMap = (Inr (n, inputMap'), tr)
         \<longrightarrow> flags_grow inputMap inputMap')
    \<and> (validate_cloudwatch cwClient logGroup logStream inputMap = (Inr (n, inputMap'), tr)
         \<longrightarrow> flags_grow inputMap inputMap')"
  using observe_grows [of "(counter, inputMap)" recordId] validate_s3_grows validate_cloudwatch_grows
  by auto

theorem universe_invariant_witness:
  "validate_s3 example_Unmarshal example_listing example_objects ''load-test-bucket'' ''load-test'' (build 5 idCounterBase)
      = (Inr (5, found3of5),
         [ListObjectsV2 (ListObjectsV2Input ''load-test-bucket'' None ''load-test''),
          GetObject (GetObjectInput ''load-test-bucket'' ''logs/1''),
          ListObjectsV2 (ListObjectsV2Input ''load-test-bucket'' (Some ''c1'') ''load-test''),
          GetObject (GetObjectInput ''load-test-bucket'' ''logs/2''),
          ListObjectsV2 (ListObjectsV2Input ''load-test-bucket'' (Some ''c2'') ''load-test''),
          Println [S ''Total object in S3: '', I 2]])
    \<and> fst (validate_cloudwatch example_pages ''load-test-group'' ''load-test'' (build 5 idCounterBase)) = Inr (5, found3of5)
    \<and> flags_grow (build 5 idCounterBase) found3of5
    \<and> fmdom found3of5 = fmdom (build 5 idCounterBase)
    \<and> fmlookup found3of5 ''99999999'' = None
    \<and> fmlookup found3of5 ''10000001'' = Some True"
proof -
  note s = example_s3_run
  note c = example_cloudwatch_run
  from universe_invariant [of "build 5 idCounterBase" "''10000000''" 0 example_Unmarshal example_listing
      example_objects "''load-test-bucket''" "''load-test''" 5 found3of5] s
  have g: "flags_grow (build 5 idCounterBase) found3of5" by simp
  then have d: "fmdom found3of5 = fmdom (build 5 idCounterBase)" by (simp add: flags_grow_def)
  have l: "fmlookup found3of5 ''99999999'' = None" "fmlookup found3of5 ''10000001'' = Some True"
    by (simp_all add: found3of5_def)
  from s c g d l show ?thesis by simp
qed

subsection \<open>Paging through a log stream\<close>


lemma cw_events_ok:
  "\<forall>e \<in> set es. 8 \<le> length (StringValue e) \<Longrightarrow> \<exists>st'. cw_events es st = Inr st'"
  by (induction es arbitrary: st) (simp_all add: first8_def)

lemma cw_loop_first_call:
  "hd (snd (cw_loop g s t replies st)) = GetLogEvents (GetLogEventsInput g s t True)"
proof (cases replies)
  case Nil
  then show ?thesis by simp
next
  case (Cons reply rest)
  then show ?thesis
    by (simp add: Let_def split: prod.splits sum.splits)
qed

lemma cw_loop_repeats:
  assumes "cursor_repeats_last t ps"
    and "\<forall>p \<in> set ps. \<forall>e \<in> set (Events p). 8 \<le> length (StringValue e)"
  shows "\<exists>st'. cw_loop g s t (map Inr ps @ later) st =
           (Inr st', map (\<lambda>c. GetLogEvents (GetLogEventsInput g s c True)) (cursors t ps))"
  using assms
proof (induction t ps arbitrary: st rule: cursor_repeats_last.induct)
  case (1 t)
  then show ?case by simp
next
  case (2 t p)
  then obtain st' where "cw_events (Events p) st = Inr st'"
    using cw_events_ok [of "Events p" st] by auto
  with 2 show ?case by simp
next
  case (3 t p q ps)
  then obtain st1 where e: "cw_events (Events p) st = Inr st1"
    using cw_events_ok [of "Events p" st] by auto
  from 3 have "\<exists>st'. cw_loop g s (NextForwardToken p) (map Inr (q # ps) @ later) st1 =
           (Inr st', map (\<lambda>c. GetLogEvents (GetLogEventsInput g s c True)) (cursors (NextForwardToken p) (q # ps)))"
    by simp
  then obtain st' where "cw_loop g s (NextForwardToken p) (map Inr (q # ps) @ later) st1 =
           (Inr st', map (\<lambda>c. GetLogEvents (GetLogEventsInput g s c True)) (cursors (NextForwardToken p) (q # ps)))"
    by blast
  with 3 e show ?case by simp
qed

lemma cw_loop_changes:
  assumes "cursor_changes t ps"
    and "\<forall>p \<in> set ps. \<forall>e \<in> set (Events p). 8 \<le> length (StringValue e)"
  shows "cw_loop g s t (map Inr ps) st =
           (Inl Pending, map (\<lambda>c. GetLogEvents (GetLogEventsInput g s c True))
              (cursors t ps @ [last (t # map NextForwardToken ps)]))"
  using assms
proof (induction ps arbitrary: t st)
  case Nil
  then show ?case by simp
next
  case (Cons p ps)
  then obtain st1 where e: "cw_events (Events p) st = Inr st1"
    using cw_events_ok [of "Events p" st] by auto
  from Cons have "cw_loop g s (NextForwardToken p) (map Inr ps) st1 =
           (Inl Pending, map (\<lambda>c. GetLogEvents (GetLogEventsInput g s c True))
              (cursors (NextForwardToken p) ps @ [last (NextForwardToken p # map NextForwardToken ps)]))"
    by simp
  with Cons.prems e show ?case by simp
qed

lemma length_cursors: "length (cursors t ps) = length ps"
  by (induction ps arbitrary: t) simp_all

text \<open>
  Claim C1. In \<open>validate_cloudwatch\<close> the first call of \<open>GetLogEvents\<close> carries no
  cursor. A call whose page returns a cursor of another value than the one supplied is
  followed by a call with the returned cursor, and the traversal ends with the first page
  that returns the value supplied: when the cursor changes on every page but the last and
  repeats on the last, the calls are exactly one per page, each with the cursor of the
  page before, and the run returns; as long as the cursor changes on every page, the run
  goes on to a further call. Cursors are compared by \<open>aws.StringValue\<close>, which reads
  an absent cursor as the empty string. The pages are those whose events all have at
  least 8 bytes, so that no page ends the run by a fault.
\<close>

theorem cloudwatch_paging:
  assumes "\<forall>p \<in> set ps. \<forall>e \<in> set (Events p). 8 \<le> length (StringValue e)"
  shows "hd (snd (validate_cloudwatch cwClient logGroup logStream inputMap))
        = GetLogEvents (GetLogEventsInput logGroup logStream None True)
    \<and> (cursor_repeats_last None ps \<longrightarrow>
          (\<exists>n inputMap'. validate_cloudwatch (map Inr ps @ later) logGroup logStream inputMap =
             (Inr (n, inputMap'),
              map (\<lambda>c. GetLogEvents (GetLogEventsInput logGroup logStream c True)) (cursors None ps))))
    \<and> (cursor_changes None ps \<longrightarrow>
          validate_cloudwatch (map Inr ps) logGroup logStream inputMap =
             (Inl Pending,
              map (\<lambda>c. GetLogEvents (GetLogEventsInput logGroup logStream c True))
                (cursors None ps @ [last (None # map NextForwardToken ps)])))
    \<and> length (cursors None ps) = length ps"
proof (intro conjI impI)
  show "hd (snd (validate_cloudwatch cwClient logGroup logStream inputMap))
        = GetLogEvents (GetLogEventsInput logGroup logStream None True)"
    unfolding validate_cloudwatch_def by (rule cw_loop_first_call)
  show "\<exists>n inputMap'. validate_cloudwatch (map Inr ps @ later) logGroup logStream inputMap =
             (Inr (n, inputMap'),
              map (\<lambda>c. GetLogEvents (GetLogEventsInput logGroup logStream c True)) (cursors None ps))"
    if "cursor_repeats_last None ps"
    using cw_loop_repeats [OF that assms, of logGroup logStream later "(0, inputMap)"]
    unfolding validate_cloudwatch_def by auto
  show "validate_cloudwatch (map Inr ps) logGroup logStream inputMap =
             (Inl Pending,
              map (\<lambda>c. GetLogEvents (GetLogEventsInput logGroup logStream c True))
                (cursors None ps @ [last (None # map NextForwardToken ps)]))"
    if "cursor_changes None ps"
    unfolding validate_cloudwatch_def by (rule cw_loop_changes [OF that assms])
  show "length (cursors None ps) = length ps" by (rule length_cursors)
qed

theorem cloudwatch_paging_witness:
  "cursor_repeats_last None example_responses
    \<and> validate_cloudwatch example_pages ''load-test-group'' ''load-test'' (build 5 idCounterBase) =
        (Inr (5, found3of5),
         [GetLogEvents (GetLogEventsInput ''load-test-group'' ''load-test'' None True),
          GetLogEvents (GetLogEventsInput ''load-test-group'' ''load-test'' (Some ''f/1'') True),
          GetLogEvents (GetLogEventsInput ''load-test-group'' ''load-test'' (Some ''f/2'') True)])
    \<and> length (snd (validate_cloudwatch example_pages ''load-test-group'' ''load-test'' (build 5 idCounterBase))) = 3
    \<and> cursor_changes None (take 2 example_responses)
    \<and> validate_cloudwatch (map Inr (take 2 example_responses)) ''load-test-group'' ''load-test'' (build 5 idCounterBase) =
        (Inl Pending,
         [GetLogEvents (GetLogEventsInput ''load-test-group'' ''load-test'' None True),
          GetLogEvents (GetLogEventsInput ''load-test-group'' ''load-test'' (Some ''f/1'') True),
          GetLogEvents (GetLogEventsInput ''load-test-group'' ''load-test'' (Some ''f/2'') True)])"
proof -
  have ok: "\<forall>p \<in> set example_responses. \<forall>e \<in> set (Events p). 8 \<le> length (StringValue e)"
    by (simp add: example_responses_def StringValue_def)
  have ok2: "\<forall>p \<in> set (take 2 example_responses). \<forall>e \<in> set (Events p). 8 \<le> length (StringValue e)"
    by (simp add: example_responses_def StringValue_def)
  have r: "cursor_repeats_last None example_responses"
    by (simp add: example_responses_def StringValue_def)
  have c: "cursor_changes None (take 2 example_responses)"
    by (simp add: example_responses_def StringValue_def)
  have cs: "cursors None example_responses = [None, Some ''f/1'', Some ''f/2'']"
    by (simp add: example_responses_def)
  have cs2: "cursors None (take 2 example_responses) @ [last (None # map NextForwardToken (take 2 example_responses))]
      = [None, Some ''f/1'', Some ''f/2'']"
    by (simp add: example_responses_def)
  note a = cloudwatch_paging [OF ok, of example_pages "''load-test-group''" "''load-test''" "build 5 idCounterBase" "[]"]
  note b = cloudwatch_paging [OF ok2, of example_pages "''load-test-group''" "''load-test''" "build 5 idCounterBase" "[]"]
  from a r have "\<exists>n inputMap'. validate_cloudwatch example_pages ''load-test-group'' ''load-test'' (build 5 idCounterBase) =
             (Inr (n, inputMap'),
              [GetLogEvents (GetLogEventsInput ''load-test-group'' ''load-test'' None True),
               GetLogEvents (GetLogEventsInput ''load-test-group'' ''load-test'' (Some ''f/1'') True),
               GetLogEvents (GetLogEventsInput ''load-test-group'' ''load-test'' (Some ''f/2'') True)])"
    by (simp add: cs example_pages_def)
  then have 1: "length (snd (validate_cloudwatch example_pages ''load-test-group'' ''load-test'' (build 5 idCounterBase))) = 3"
    by auto
  from b c have 2: "validate_cloudwatch (map Inr (take 2 example_responses)) ''load-test-group'' ''load-test'' (build 5 idCounterBase) =
        (Inl Pending,
         [GetLogEvents (GetLogEventsInput ''load-test-group'' ''load-test'' None True),
          GetLogEvents (GetLogEventsInput ''load-test-group'' ''load-test'' (Some ''f/1'') True),
          GetLogEvents (GetLogEventsInput ''load-test-group'' ''load-test'' (Some ''f/2'') True)])"
    by (simp only: cs2 list.map simp_thms)
  show ?thesis by (intro conjI r example_cloudwatch_run 1 c 2)
qed

subsection \<open>Paging through a listing\<close>

lemma ex_triple: "\<exists>a b c. x = (a, b, c)"
  by (cases x) auto

lemma s3_lines_ok:
  "list_all (\<lambda>d. d = [] \<or> (case decode d of Inl decodeError \<Rightarrow> False | Inr Log \<Rightarrow> 8 \<le> length Log)) ds
    \<Longrightarrow> \<exists>st'. s3_lines decode ds st = Inr st'"
  by (induction ds arbitrary: st) (auto simp: first8_def split: sum.splits)

lemma s3_contents_ok:
  "\<forall>Key \<in> set keys. object_ok decode s3Client bucket Key
    \<Longrightarrow> \<exists>st'. s3_contents decode s3Client bucket keys st = (Inr st', map (\<lambda>Key. GetObject (GetObjectInput bucket Key)) keys)"
proof (induction keys arbitrary: st)
  case Nil
  then show ?case by (simp add: ex_triple)
next
  case (Cons key keys)
  obtain oc rest where st: "st = (oc, rest)" by (cases st)
  from Cons.prems have "object_ok decode s3Client bucket key" by simp
  then obtain dataByte where g: "s3Client (GetObjectInput bucket key) = Inr (Data dataByte)"
    and l: "list_all (\<lambda>d. d = [] \<or> (case decode d of Inl decodeError \<Rightarrow> False | Inr Log \<Rightarrow> 8 \<le> length Log))
            (Split dataByte (CHR 0x0A))"
    by (cases "s3Client (GetObjectInput bucket key)") (auto simp: object_ok_def split: body.splits)
  from s3_lines_ok [OF l] obtain rest' where r: "s3_lines decode (Split dataByte (CHR 0x0A)) rest = Inr rest'"
    by blast
  from Cons.IH [of "(oc + 1, rest')"] Cons.prems obtain st' where
    "s3_contents decode s3Client bucket keys (oc + 1, rest') = (Inr st', map (\<lambda>Key. GetObject (GetObjectInput bucket Key)) keys)"
    by auto
  with st g r show ?case by (simp add: getS3Object_def ReadAll_def ex_triple)
qed

lemma not_listing_objects: "filter is_listing (map (\<lambda>Key. GetObject (GetObjectInput bucket Key)) keys) = []"
  by (induction keys) simp_all

lemma s3_loop_last_page:
  assumes "ps \<noteq> []" "\<forall>p \<in> set (butlast ps). BoolValue (IsTruncated p)" "\<not> BoolValue (IsTruncated (last ps))"
    and "\<forall>p \<in> set ps. \<forall>Key \<in> set (Contents p). object_ok decode s3Client bucket Key"
  shows "\<exists>st' tr. s3_loop decode s3Client bucket prefix t (map Inr ps @ later) st = (Inr st', tr)
           \<and> filter is_listing tr = map (\<lambda>c. ListObjectsV2 (ListObjectsV2Input bucket c prefix)) (continuations t ps)"
  using assms
proof (induction ps arbitrary: t st)
  case Nil
  then show ?case by simp
next
  case (Cons p ps)
  from Cons.prems(4) s3_contents_ok [of "Contents p" decode s3Client bucket st] obtain st1 where
    c: "s3_contents decode s3Client bucket (Contents p) st = (Inr st1, map (\<lambda>Key. GetObject (GetObjectInput bucket Key)) (Contents p))"
    by auto
  show ?case
  proof (cases "ps = []")
    case True
    with Cons.prems c show ?thesis by (simp add: Let_def not_listing_objects ex_triple)
  next
    case False
    with Cons.prems have tr: "BoolValue (IsTruncated p)" by simp
    from False Cons.prems have "\<exists>st' tr. s3_loop decode s3Client bucket prefix (NextContinuationToken p) (map Inr ps @ later) st1 = (Inr st', tr)
           \<and> filter is_listing tr = map (\<lambda>c. ListObjectsV2 (ListObjectsV2Input bucket c prefix)) (continuations (NextContinuationToken p) ps)"
      by (intro Cons.IH) simp_all
    then obtain st' tr' where "s3_loop decode s3Client bucket prefix (NextContinuationToken p) (map Inr ps @ later) st1 = (Inr st', tr')"
      and "filter is_listing tr' = map (\<lambda>c. ListObjectsV2 (ListObjectsV2Input bucket c prefix)) (continuations (NextContinuationToken p) ps)"
      by blast
    with c tr show ?thesis by (simp add: Let_def not_listing_objects ex_triple)
  qed
qed

lemma s3_loop_truncated:
  assumes "\<forall>p \<in> set ps. BoolValue (IsTruncated p)"
    and "\<forall>p \<in> set ps. \<forall>Key \<in> set (Contents p). object_ok decode s3Client bucket Key"
  shows "\<exists>tr. s3_loop decode s3Client bucket prefix t (map Inr ps) st = (Inl Pending, tr)
           \<and> filter is_listing tr = map (\<lambda>c. ListObjectsV2 (ListObjectsV2Input bucket c prefix))
                (continuations t ps @ [last (t # map NextContinuationToken ps)])"
  using assms
proof (induction ps arbitrary: t st)
  case Nil
  then show ?case by simp
next
  case (Cons p ps)
  from Cons.prems(2) s3_contents_ok [of "Contents p" decode s3Client bucket st] obtain st1 where
    c: "s3_contents decode s3Client bucket (Contents p) st = (Inr st1, map (\<lambda>Key. GetObject (GetObjectInput bucket Key)) (Contents p))"
    by auto
  from Cons.prems have "\<exists>tr. s3_loop decode s3Client bucket prefix (NextContinuationToken p) (map Inr ps) st1 = (Inl Pending, tr)
           \<and> filter is_listing tr = map (\<lambda>c. ListObjectsV2 (ListObjectsV2Input bucket c prefix))
                (continuations (NextContinuationToken p) ps @ [last (NextContinuationToken p # map NextContinuationToken ps)])"
    by (intro Cons.IH) simp_all
  then obtain tr' where "s3_loop decode s3Client bucket prefix (NextContinuationToken p) (map Inr ps) st1 = (Inl Pending, tr')"
    and "filter is_listing tr' = map (\<lambda>c. ListObjectsV2 (ListObjectsV2Input bucket c prefix))
                (continuations (NextContinuationToken p) ps @ [last (NextContinuationToken p # map NextContinuationToken ps)])"
    by blast
  with c Cons.prems show ?case by (simp add: Let_def not_listing_objects)
qed

lemma length_continuations: "length (continuations t ps) = length ps"
  by (induction ps arbitrary: t) simp_all

text \<open>
  Claim C8. In \<open>validate_s3\<close> the first listing carries no continuation cursor and every
  further listing carries the cursor of the response before it. The traversal ends with
  the first response that is not truncated: when every page but the last is truncated and
  the last is not, the listing calls are exactly one per page and the run returns after
  the last page; as long as every page is truncated, the run goes on to a further
  listing. The pages are those whose objects can all be fetched and decoded, so that no
  page ends the run by a fault.
\<close>

theorem s3_paging:
  assumes "\<forall>p \<in> set ps. \<forall>Key \<in> set (Contents p). object_ok decode s3Client bucket Key"
  shows "(ps \<noteq> [] \<and> (\<forall>p \<in> set (butlast ps). BoolValue (IsTruncated p)) \<and> \<not> BoolValue (IsTruncated (last ps)) \<longrightarrow>
          (\<exists>n inputMap' tr. validate_s3 decode (map Inr ps @ later) s3Client bucket prefix inputMap = (Inr (n, inputMap'), tr)
             \<and> filter is_listing tr = map (\<lambda>c. ListObjectsV2 (ListObjectsV2Input bucket c prefix)) (continuations None ps)))
    \<and> ((\<forall>p \<in> set ps. BoolValue (IsTruncated p)) \<longrightarrow>
          (\<exists>tr. validate_s3 decode (map Inr ps) s3Client bucket prefix inputMap = (Inl Pending, tr)
             \<and> filter is_listing tr = map (\<lambda>c. ListObjectsV2 (ListObjectsV2Input bucket c prefix))
                  (continuations None ps @ [last (None # map NextContinuationToken ps)])))
    \<and> length (continuations None ps) = length ps"
proof (intro conjI impI)
  assume a: "ps \<noteq> [] \<and> (\<forall>p \<in> set (butlast ps). BoolValue (IsTruncated p)) \<and> \<not> BoolValue (IsTruncated (last ps))"
  from a assms s3_loop_last_page [of ps decode s3Client bucket prefix None later "(0, 0, inputMap)"]
  obtain st' tr where l: "s3_loop decode s3Client bucket prefix None (map Inr ps @ later) (0, 0, inputMap) = (Inr st', tr)"
    and f: "filter is_listing tr = map (\<lambda>c. ListObjectsV2 (ListObjectsV2Input bucket c prefix)) (continuations None ps)"
    by blast
  obtain oc n inputMap' where "st' = (oc, n, inputMap')" by (cases st') auto
  with l f show "\<exists>n inputMap' tr. validate_s3 decode (map Inr ps @ later) s3Client bucket prefix inputMap = (Inr (n, inputMap'), tr)
             \<and> filter is_listing tr = map (\<lambda>c. ListObjectsV2 (ListObjectsV2Input bucket c prefix)) (continuations None ps)"
    by (simp add: validate_s3_def)
next
  assume a: "\<forall>p \<in> set ps. BoolValue (IsTruncated p)"
  from s3_loop_truncated [OF a assms, of prefix None "(0, 0, inputMap)"]
  show "\<exists>tr. validate_s3 decode (map Inr ps) s3Client bucket prefix inputMap = (Inl Pending, tr)
             \<and> filter is_listing tr = map (\<lambda>c. ListObjectsV2 (ListObjectsV2Input bucket c prefix))
                  (continuations None ps @ [last (None # map NextContinuationToken ps)])"
    by (auto simp: validate_s3_def)
next
  show "length (continuations None ps) = length ps" by (rule length_continuations)
qed

theorem s3_paging_witness:
  "length example_listings = 3
    \<and> BoolValue (IsTruncated (example_listings ! 0)) \<and> BoolValue (IsTruncated (example_listings ! 1))
    \<and> \<not> BoolValue (IsTruncated (example_listings ! 2))
    \<and> fst (validate_s3 example_Unmarshal example_listing example_objects ''load-test-bucket'' ''load-test'' (build 5 idCounterBase))
        = Inr (5, found3of5)
    \<and> filter is_listing (snd (validate_s3 example_Unmarshal example_listing example_objects ''load-test-bucket'' ''load-test''
          (build 5 idCounterBase)))
        = [ListObjectsV2 (ListObjectsV2Input ''load-test-bucket'' None ''load-test''),
           ListObjectsV2 (ListObjectsV2Input ''load-test-bucket'' (Some ''c1'') ''load-test''),
           ListObjectsV2 (ListObjectsV2Input ''load-test-bucket'' (Some ''c2'') ''load-test'')]
    \<and> fst (validate_s3 example_Unmarshal (map Inr (take 2 example_listings)) example_objects ''load-test-bucket'' ''load-test''
          (build 5 idCounterBase)) = Inl Pending
    \<and> filter is_listing (snd (validate_s3 example_Unmarshal (map Inr (take 2 example_listings)) example_objects
          ''load-test-bucket'' ''load-test'' (build 5 idCounterBase)))
        = [ListObjectsV2 (ListObjectsV2Input ''load-test-bucket'' None ''load-test''),
           ListObjectsV2 (ListObjectsV2Input ''load-test-bucket'' (Some ''c1'') ''load-test''),
           ListObjectsV2 (ListObjectsV2Input ''load-test-bucket'' (Some ''c2'') ''load-test'')]"
proof -
  have o1: "object_ok example_Unmarshal example_objects ''load-test-bucket'' ''logs/1''"
    and o2: "object_ok example_Unmarshal example_objects ''load-test-bucket'' ''logs/2''"
    by (simp_all add: object_ok_def example_objects_def example_Unmarshal_def)
  have ok: "\<forall>p \<in> set example_listings. \<forall>Key \<in> set (Contents p). object_ok example_Unmarshal example_objects ''load-test-bucket'' Key"
    by (simp add: example_listings_def o1 o2)
  have ok2: "\<forall>p \<in> set (take 2 example_listings). \<forall>Key \<in> set (Contents p). object_ok example_Unmarshal example_objects ''load-test-bucket'' Key"
    by (simp add: example_listings_def o1 o2)
  have shape: "length example_listings = 3" "BoolValue (IsTruncated (example_listings ! 0))"
    "BoolValue (IsTruncated (example_listings ! 1))" "\<not> BoolValue (IsTruncated (example_listings ! 2))"
    by (simp_all add: example_listings_def BoolValue_def)
  have last_page: "example_listings \<noteq> [] \<and> (\<forall>p \<in> set (butlast example_listings). BoolValue (IsTruncated p))
      \<and> \<not> BoolValue (IsTruncated (last example_listings))"
    by (simp add: example_listings_def BoolValue_def)
  have truncated: "\<forall>p \<in> set (take 2 example_listings). BoolValue (IsTruncated p)"
    by (simp add: example_listings_def BoolValue_def)
  have cs: "continuations None example_listings = [None, Some ''c1'', Some ''c2'']"
    by (simp add: example_listings_def)
  have cs2: "continuations None (take 2 example_listings) @ [last (None # map NextContinuationToken (take 2 example_listings))]
      = [None, Some ''c1'', Some ''c2'']"
    by (simp add: example_listings_def)
  note a = s3_paging [OF ok, of "[]" "''load-test''" "build 5 idCounterBase"]
  note b = s3_paging [OF ok2, of "[]" "''load-test''" "build 5 idCounterBase"]
  from a [THEN conjunct1, THEN mp, OF last_page]
  obtain n inputMap' tr where "validate_s3 example_Unmarshal (map Inr example_listings @ []) example_objects
      ''load-test-bucket'' ''load-test'' (build 5 idCounterBase) = (Inr (n, inputMap'), tr)"
    and "filter is_listing tr = map (\<lambda>c. ListObjectsV2 (ListObjectsV2Input ''load-test-bucket'' c ''load-test''))
      (continuations None example_listings)"
    by blast
  then have 1: "filter is_listing (snd (validate_s3 example_Unmarshal example_listing example_objects ''load-test-bucket'' ''load-test''
          (build 5 idCounterBase)))
        = [ListObjectsV2 (ListObjectsV2Input ''load-test-bucket'' None ''load-test''),
           ListObjectsV2 (ListObjectsV2Input ''load-test-bucket'' (Some ''c1'') ''load-test''),
           ListObjectsV2 (ListObjectsV2Input ''load-test-bucket'' (Some ''c2'') ''load-test'')]"
    by (simp add: cs example_listing_def)
  from b [THEN conjunct2, THEN conjunct1, THEN mp, OF truncated]
  obtain tr2 where "validate_s3 example_Unmarshal (map Inr (take 2 example_listings)) example_objects
      ''load-test-bucket'' ''load-test'' (build 5 idCounterBase) = (Inl Pending, tr2)"
    and "filter is_listing tr2 = map (\<lambda>c. ListObjectsV2 (ListObjectsV2Input ''load-test-bucket'' c ''load-test''))
      (continuations None (take 2 example_listings) @ [last (None # map NextContinuationToken (take 2 example_listings))])"
    by blast
  then have 2: "fst (validate_s3 example_Unmarshal (map Inr (take 2 example_listings)) example_objects ''load-test-bucket'' ''load-test''
          (build 5 idCounterBase)) = Inl Pending
    \<and> filter is_listing (snd (validate_s3 example_Unmarshal (map Inr (take 2 example_listings)) example_objects
          ''load-test-bucket'' ''load-test'' (build 5 idCounterBase)))
        = [ListObjectsV2 (ListObjectsV2Input ''load-test-bucket'' None ''load-test''),
           ListObjectsV2 (ListObjectsV2Input ''load-test-bucket'' (Some ''c1'') ''load-test''),
           ListObjectsV2 (ListObjectsV2Input ''load-test-bucket'' (Some ''c2'') ''load-test'')]"
    by (simp only: cs2 list.map fst_conv snd_conv simp_thms)
  have 3: "fst (validate_s3 example_Unmarshal example_listing example_objects ''load-test-bucket'' ''load-test'' (build 5 idCounterBase))
        = Inr (5, found3of5)"
    by (simp add: example_s3_run)
  from shape 1 2 3 show ?thesis by blast
qed

subsection \<open>Transient faults\<close>









subsection \<open>Extracting the record identifier\<close>

lemma s3_first_object_fault:
  assumes "Contents response = Key # keys"
    and "s3Client (GetObjectInput bucket Key) = Inr (Data dataByte)"
    and "s3_lines decode (Split dataByte (CHR 0x0A)) (0, inputMap) = Inl f"
  shows "validate_s3 decode (Inr response # listing) s3Client bucket prefix inputMap =
     (Inl f, [ListObjectsV2 (ListObjectsV2Input bucket None prefix), GetObject (GetObjectInput bucket Key)])"
  using assms by (simp add: validate_s3_def getS3Object_def ReadAll_def Let_def)

lemma cw_first_page_fault:
  assumes "cw_events (Events response) (0, inputMap) = Inl f"
  shows "validate_cloudwatch (Inr response # pages) logGroup logStream inputMap =
     (Inl f, [GetLogEvents (GetLogEventsInput logGroup logStream None True)])"
  using assms by (simp add: validate_cloudwatch_def Let_def)

text \<open>
  Claim C9, as amended. Extracting the record identifier of a non-empty line always has
  a defined result. In \<open>validate_s3\<close> a line that \<open>json.Unmarshal\<close> rejects is fatal:
  the run stops with the reported failure \<open>Json Unmarshal Error\<close> and exit status 1.
  \<open>validate_cloudwatch\<close> decodes no envelope: the message of an event is the payload,
  whatever its form. In both strategies the identifier is the first 8 bytes of the payload,
  taken by the slice \<open>[:8]\<close> with no check of the length before it: on a payload of
  fewer than 8 bytes the slice panics in Go's bounds check, the run stops with exit status
  2 and no reported failure, and no identifier is taken. A fault in the first object or
  page is the outcome of the whole traversal.
\<close>

theorem record_extraction:
  "(d \<noteq> [] \<and> decode d = Inl decodeError \<longrightarrow>
          s3_lines decode (d # ds) st = Inl (Fatal ''[TEST FAILURE] Json Unmarshal Error:'' [decodeError]))
    \<and> (d \<noteq> [] \<and> decode d = Inr log \<and> length log < 8 \<longrightarrow>
          s3_lines decode (d # ds) st = Inl (Panic ''slice bounds out of range [:8]''))
    \<and> (d \<noteq> [] \<and> decode d = Inr log \<and> 8 \<le> length log \<longrightarrow>
          s3_lines decode (d # ds) st = s3_lines decode ds (observe (take 8 log) st))
    \<and> (length (StringValue Message) < 8 \<longrightarrow>
          cw_events (Message # events) st = Inl (Panic ''slice bounds out of range [:8]''))
    \<and> (8 \<le> length (StringValue Message) \<longrightarrow>
          cw_events (Message # events) st = cw_events events (observe (take 8 (StringValue Message)) st))
    \<and> (Contents response = Key # keys \<and> s3Client (GetObjectInput bucket Key) = Inr (Data dataByte)
         \<and> s3_lines decode (Split dataByte (CHR 0x0A)) (0, inputMap) = Inl f \<longrightarrow>
          validate_s3 decode (Inr response # listing) s3Client bucket prefix inputMap =
            (Inl f, [ListObjectsV2 (ListObjectsV2Input bucket None prefix), GetObject (GetObjectInput bucket Key)]))
    \<and> (cw_events (Events page) (0, inputMap) = Inl f \<longrightarrow>
          validate_cloudwatch (Inr page # pages) logGroup logStream inputMap =
            (Inl f, [GetLogEvents (GetLogEventsInput logGroup logStream None True)]))
    \<and> exit_status (Inl (Fatal msg args) :: fault + unit) = Some 1
    \<and> exit_status (Inl (Panic msg) :: fault + unit) = Some 2"
  using s3_first_object_fault [of response Key keys s3Client bucket dataByte decode inputMap f listing prefix]
    cw_first_page_fault [of page inputMap f pages logGroup logStream]
  by (simp add: first8_def)

theorem record_extraction_witness:
  "first8 ''10000000_1639151827578_a'' = Inr ''10000000''
    \<and> first8 ''1000'' = Inl (Panic ''slice bounds out of range [:8]'')
    \<and> s3_lines example_Unmarshal [''not json'', example_line] (0, build 5 idCounterBase)
        = Inl (Fatal ''[TEST FAILURE] Json Unmarshal Error:'' [''invalid character''])
    \<and> s3_lines example_Unmarshal [example_short_line, example_line] (0, build 5 idCounterBase)
        = Inl (Panic ''slice bounds out of range [:8]'')
    \<and> s3_lines example_Unmarshal [example_line] (0, build 5 idCounterBase)
        = Inr (observe ''10000000'' (0, build 5 idCounterBase))
    \<and> cw_events [Some ''1000'', Some ''10000000_1639151827578_a''] (0, build 5 idCounterBase)
        = Inl (Panic ''slice bounds out of range [:8]'')
    \<and> cw_events [None] (0, build 5 idCounterBase) = Inl (Panic ''slice bounds out of range [:8]'')
    \<and> cw_events [Some ''10000000_1639151827578_a''] (0, build 5 idCounterBase)
        = Inr (observe ''10000000'' (0, build 5 idCounterBase))
    \<and> validate_s3 example_Unmarshal example_listing (\<lambda>input. Inr (Data ''not json'')) ''load-test-bucket'' ''load-test''
          (build 5 idCounterBase)
        = (Inl (Fatal ''[TEST FAILURE] Json Unmarshal Error:'' [''invalid character'']),
           [ListObjectsV2 (ListObjectsV2Input ''load-test-bucket'' None ''load-test''),
            GetObject (GetObjectInput ''load-test-bucket'' ''logs/1'')])
    \<and> validate_s3 example_Unmarshal example_listing (\<lambda>input. Inr (Data example_short_line)) ''load-test-bucket'' ''load-test''
          (build 5 idCounterBase)
        = (Inl (Panic ''slice bounds out of range [:8]''),
           [ListObjectsV2 (ListObjectsV2Input ''load-test-bucket'' None ''load-test''),
            GetObject (GetObjectInput ''load-test-bucket'' ''logs/1'')])
    \<and> validate_cloudwatch (Inr \<lparr>Events = [Some ''1000''], NextForwardToken = None\<rparr> # example_pages)
          ''load-test-group'' ''load-test'' (build 5 idCounterBase)
        = (Inl (Panic ''slice bounds out of range [:8]''),
           [GetLogEvents (GetLogEventsInput ''load-test-group'' ''load-test'' None True)])
    \<and> exit_status (Inl (Fatal ''[TEST FAILURE] Json Unmarshal Error:'' [''invalid character'']) :: fault + unit) = Some 1
    \<and> exit_status (Inl (Panic ''slice bounds out of range [:8]'') :: fault + unit) = Some 2"
proof -
  have dec: "example_Unmarshal ''not json'' = Inl ''invalid character''"
    "example_Unmarshal example_short_line = Inr ''1000''"
    "example_Unmarshal example_line = Inr ''10000000_1639151827578_a''"
    and ne: "''not json'' \<noteq> []" "example_short_line \<noteq> []" "example_line \<noteq> []"
    by (simp_all add: example_Unmarshal_def example_short_line_def example_line_def)
  note bad = record_extraction [where d = "''not json''" and decode = example_Unmarshal and decodeError = "''invalid character''"
      and ds = "[example_line]" and st = "(0, build 5 idCounterBase)" and log = "''10000000_1639151827578_a''"
      and Message = "Some ''1000''" and events = "[Some ''10000000_1639151827578_a'']"
      and response = "hd example_listings" and Key = "''logs/1''" and keys = "[]" and listing = "tl example_listing"
      and ?s3Client = "\<lambda>input. Inr (Data ''not json'')" and bucket = "''load-test-bucket''" and prefix = "''load-test''"
      and dataByte = "''not json''" and inputMap = "build 5 idCounterBase"
      and f = "Fatal ''[TEST FAILURE] Json Unmarshal Error:'' [''invalid character'']"
      and msg = "''[TEST FAILURE] Json Unmarshal Error:''" and args = "[''invalid character'']"]
  note short = record_extraction [where d = example_short_line and decode = example_Unmarshal and log = "''1000''"
      and ds = "[example_line]" and st = "(0, build 5 idCounterBase)"
      and Message = None and events = "[]"
      and response = "hd example_listings" and Key = "''logs/1''" and keys = "[]" and listing = "tl example_listing"
      and ?s3Client = "\<lambda>input. Inr (Data example_short_line)" and bucket = "''load-test-bucket''" and prefix = "''load-test''"
      and dataByte = example_short_line and inputMap = "build 5 idCounterBase"
      and f = "Panic ''slice bounds out of range [:8]''"
      and page = "\<lparr>Events = [Some ''1000''], NextForwardToken = None\<rparr>" and pages = example_pages
      and logGroup = "''load-test-group''" and logStream = "''load-test''"
      and msg = "''slice bounds out of range [:8]''"]
  note good = record_extraction [where d = example_line and decode = example_Unmarshal and log = "''10000000_1639151827578_a''"
      and ds = "[]" and st = "(0, build 5 idCounterBase)"
      and Message = "Some ''10000000_1639151827578_a''" and events = "[]"]
  have l: "example_listing = Inr (hd example_listings) # tl example_listing"
    "Contents (hd example_listings) = [''logs/1'']"
    by (simp_all add: example_listing_def example_listings_def)
  have sp: "Split ''not json'' (CHR 0x0A) = [''not json'']" "Split example_short_line (CHR 0x0A) = [example_short_line]"
    by (simp_all add: example_short_line_def)
  from bad dec ne have 1: "s3_lines example_Unmarshal [''not json'', example_line] (0, build 5 idCounterBase)
        = Inl (Fatal ''[TEST FAILURE] Json Unmarshal Error:'' [''invalid character''])"
    by simp
  from short dec ne have 2: "s3_lines example_Unmarshal [example_short_line, example_line] (0, build 5 idCounterBase)
        = Inl (Panic ''slice bounds out of range [:8]'')"
    by simp
  from good dec ne have 3: "s3_lines example_Unmarshal [example_line] (0, build 5 idCounterBase)
        = Inr (observe ''10000000'' (0, build 5 idCounterBase))"
    by simp
  from bad have 4: "cw_events [Some ''1000'', Some ''10000000_1639151827578_a''] (0, build 5 idCounterBase)
        = Inl (Panic ''slice bounds out of range [:8]'')"
    by (simp add: StringValue_def)
  from short have 5: "cw_events [None] (0, build 5 idCounterBase) = Inl (Panic ''slice bounds out of range [:8]'')"
    by (simp add: StringValue_def)
  from good have 6: "cw_events [Some ''10000000_1639151827578_a''] (0, build 5 idCounterBase)
        = Inr (observe ''10000000'' (0, build 5 idCounterBase))"
    by (simp add: StringValue_def)
  have b1: "s3_lines example_Unmarshal (Split ''not json'' (CHR 0x0A)) (0, build 5 idCounterBase)
      = Inl (Fatal ''[TEST FAILURE] Json Unmarshal Error:'' [''invalid character''])"
    unfolding sp using dec ne by simp
  have b2: "s3_lines example_Unmarshal (Split example_short_line (CHR 0x0A)) (0, build 5 idCounterBase)
      = Inl (Panic ''slice bounds out of range [:8]'')"
    unfolding sp using dec ne by (simp add: first8_def)
  from bad l b1 have 7: "validate_s3 example_Unmarshal example_listing (\<lambda>input. Inr (Data ''not json'')) ''load-test-bucket'' ''load-test''
          (build 5 idCounterBase)
        = (Inl (Fatal ''[TEST FAILURE] Json Unmarshal Error:'' [''invalid character'']),
           [ListObjectsV2 (ListObjectsV2Input ''load-test-bucket'' None ''load-test''),
            GetObject (GetObjectInput ''load-test-bucket'' ''logs/1'')])"
    by simp
  from short l b2 have 8: "validate_s3 example_Unmarshal example_listing (\<lambda>input. Inr (Data example_short_line)) ''load-test-bucket'' ''load-test''
          (build 5 idCounterBase)
        = (Inl (Panic ''slice bounds out of range [:8]''),
           [ListObjectsV2 (ListObjectsV2Input ''load-test-bucket'' None ''load-test''),
            GetObject (GetObjectInput ''load-test-bucket'' ''logs/1'')])"
    by simp
  from short have 9: "validate_cloudwatch (Inr \<lparr>Events = [Some ''1000''], NextForwardToken = None\<rparr> # example_pages)
          ''load-test-group'' ''load-test'' (build 5 idCounterBase)
        = (Inl (Panic ''slice bounds out of range [:8]''),
           [GetLogEvents (GetLogEventsInput ''load-test-group'' ''load-test'' None True)])"
    by (simp add: first8_def StringValue_def)
  have 0: "first8 ''10000000_1639151827578_a'' = Inr ''10000000''"
    "first8 ''1000'' = Inl (Panic ''slice bounds out of range [:8]'')"
    by (simp_all add: first8_def)
  have 10: "exit_status (Inl (Fatal ''[TEST FAILURE] Json Unmarshal Error:'' [''invalid character'']) :: fault + unit) = Some 1"
    "exit_status (Inl (Panic ''slice bounds out of range [:8]'') :: fault + unit) = Some 2"
    by simp_all
  show ?thesis by (intro conjI 0 1 2 3 4 5 6 7 8 9 10)
qed

text \<open>
  Claim C9 as stated fails twice. A payload of fewer than 8 bytes is not a reported
  malformed-input fault: the unchecked slice panics, with exit status 2. And in
  \<open>validate_cloudwatch\<close> a message that is no envelope at all is no fault: it is counted
  as a record and the run returns.
\<close>

theorem record_extraction_counterexample:
  "example_Unmarshal example_short_line = Inr ''1000''
    \<and> fst (validate_s3 example_Unmarshal example_listing (\<lambda>input. Inr (Data example_short_line))
          ''load-test-bucket'' ''load-test'' (build 5 idCounterBase))
        = Inl (Panic ''slice bounds out of range [:8]'')
    \<and> exit_status (fst (validate_s3 example_Unmarshal example_listing (\<lambda>input. Inr (Data example_short_line))
          ''load-test-bucket'' ''load-test'' (build 5 idCounterBase))) = Some 2
    \<and> example_Unmarshal ''not json at all'' = Inl ''invalid character''
    \<and> validate_cloudwatch [Inr \<lparr>Events = [Some ''not json at all''], NextForwardToken = None\<rparr>]
          ''load-test-group'' ''load-test'' (build 5 idCounterBase)
        = (Inr (1, build 5 idCounterBase),
           [GetLogEvents (GetLogEventsInput ''load-test-group'' ''load-test'' None True)])"
proof -
  have d: "example_Unmarshal example_short_line = Inr ''1000''"
    "example_Unmarshal ''not json at all'' = Inl ''invalid character''"
    by (simp_all add: example_Unmarshal_def example_short_line_def)
  have s: "fst (validate_s3 example_Unmarshal example_listing (\<lambda>input. Inr (Data example_short_line))
          ''load-test-bucket'' ''load-test'' (build 5 idCounterBase))
        = Inl (Panic ''slice bounds out of range [:8]'')"
    by (simp add: run_eval example_short_line_def)
  have c: "validate_cloudwatch [Inr \<lparr>Events = [Some ''not json at all''], NextForwardToken = None\<rparr>]
          ''load-test-group'' ''load-test'' (build 5 idCounterBase)
        = (Inr (1, build 5 idCounterBase),
           [GetLogEvents (GetLogEventsInput ''load-test-group'' ''load-test'' None True)])"
    unfolding build_5 by (simp add: run_eval)
  have x: "exit_status (fst (validate_s3 example_Unmarshal example_listing (\<lambda>input. Inr (Data example_short_line))
          ''load-test-bucket'' ''load-test'' (build 5 idCounterBase))) = Some 2"
    by (simp add: s)
  show ?thesis by (intro conjI d s x c)
qed

subsection \<open>Configuration and the choice of the destination\<close>

lemma build_all_false: "uniqueRecordFound (build N base) = 0"
proof -
  have "ffilter (\<lambda>k. fmlookup (build N base) k = Some True) (fmdom (build N base)) = {||}"
    by (auto simp: build_lookup)
  then show ?thesis by (simp add: uniqueRecordFound_def fcard_fempty)
qed

lemma main_startup_passed:
  assumes "env_complete w" "2 < length (Args w)" "Args w ! 1 \<noteq> []" "Args w ! 2 \<noteq> []"
  shows "main w =
     (case read_destination w (Getenv w envDestination) (Getenv w envAWSRegion) (Getenv w envS3Bucket)
             (Getenv w envCWLogGroup) (Getenv w envLogPrefix) (build (Atoi (Args w ! 1)) idCounterBase) of
        (Inl f, tr) \<Rightarrow> (Inl f, tr)
      | (Inr (totalRecordFound, inputMap'), tr) \<Rightarrow>
          (case get_results (Atoi (Args w ! 1)) totalRecordFound inputMap' (Args w ! 2) of
             (res, tr') \<Rightarrow> (res, tr @ tr')))"
  using assms by (simp add: main_def env_complete_def Let_def del: One_nat_def)

lemma lossPercent_nothing_found:
  assumes "N \<noteq> 0" and "- 92233720368547758 \<le> sint N" and "sint N \<le> 92233720368547758"
  shows "lossPercent N 0 = 100"
proof -
  have pw: "(2 :: int) ^ 63 = 9223372036854775808" by simp
  from assms(1) have n: "sint N \<noteq> 0" using signed_eq_0_iff [of N] by simp
  have "- (2 ^ 63) \<le> sint N * 100" "sint N * 100 < 2 ^ 63"
    unfolding pw using assms(2,3) by linarith+
  then have p: "sint (N * 100) = sint N * 100" by (rule sint_times_100)
  have "(sint N * 100) sdiv sint N = 100"
    using n by (simp add: signed_divide_int_def sgn_if abs_mult)
  then show ?thesis by (simp add: lossPercent_def go_div_def p)
qed

lemma build_no_flag: "fmlookup (build N base) k \<noteq> Some True"
  by (simp add: build_lookup)

lemma example_env_complete: "destination \<noteq> [] \<Longrightarrow> env_complete (example_world destination inputRecord)"
  by (simp add: env_complete_def example_world_def env_eval)

text \<open>
  Claim C10, as amended. When the configuration is complete and the destination is
  neither \<open>s3\<close> nor \<open>cloudwatch\<close>, \<open>main\<close> calls no service: the record count stays
  0 and no flag of the universe is set. When the count that \<open>Atoi\<close> reads is not 0,
  \<open>main\<close> goes on to report and exits with status 0, not with a configuration error;
  the loss it prints is \<open>N * 100 / N\<close> in Go's 64-bit \<open>int\<close>, which is 100 whenever
  \<open>N * 100\<close> is in the range of \<open>int\<close>, that is for a count between
  \<open>-92233720368547758\<close> and \<open>92233720368547758\<close>.
\<close>

theorem unknown_destination:
  assumes "env_complete w" "2 < length (Args w)" "Args w ! 1 \<noteq> []" "Args w ! 2 \<noteq> []"
    and "Getenv w envDestination \<noteq> ''s3''" "Getenv w envDestination \<noteq> ''cloudwatch''"
  shows "read_destination w (Getenv w envDestination) (Getenv w envAWSRegion) (Getenv w envS3Bucket)
             (Getenv w envCWLogGroup) (Getenv w envLogPrefix) (build (Atoi (Args w ! 1)) idCounterBase)
        = (Inr (0, build (Atoi (Args w ! 1)) idCounterBase), [])
    \<and> fmlookup (build (Atoi (Args w ! 1)) idCounterBase) k \<noteq> Some True
    \<and> uniqueRecordFound (build (Atoi (Args w ! 1)) idCounterBase) = 0
    \<and> (Atoi (Args w ! 1) \<noteq> 0 \<longrightarrow>
         main w =
           (Inr (),
            [Println [S ''Total input record: '', I (Atoi (Args w ! 1))],
             Println [S ''Total record in destination: '', I 0],
             Println [S ''Unique record in destination: '', I 0],
             Println [S ''Duplicate records: '', I 0],
             Println [S ''Log Delay: '', S (Args w ! 2)],
             Println [S ''Log Loss: '', I (lossPercent (Atoi (Args w ! 1)) 0), S ''%''],
             Println [S ''Number of missing log records: '', I (Atoi (Args w ! 1))]])
         \<and> exit_status (fst (main w)) = Some 0)
    \<and> (Atoi (Args w ! 1) \<noteq> 0 \<and> - 92233720368547758 \<le> sint (Atoi (Args w ! 1))
          \<and> sint (Atoi (Args w ! 1)) \<le> 92233720368547758 \<longrightarrow>
         lossPercent (Atoi (Args w ! 1)) 0 = 100)"
proof -
  let ?N = "Atoi (Args w ! 1)"
  have r: "read_destination w (Getenv w envDestination) (Getenv w envAWSRegion) (Getenv w envS3Bucket)
             (Getenv w envCWLogGroup) (Getenv w envLogPrefix) (build ?N idCounterBase)
        = (Inr (0, build ?N idCounterBase), [])"
    using assms(5,6) by (simp add: read_destination_def)
  have m: "main w =
      (Inr (),
       [Println [S ''Total input record: '', I ?N],
        Println [S ''Total record in destination: '', I 0],
        Println [S ''Unique record in destination: '', I 0],
        Println [S ''Duplicate records: '', I 0],
        Println [S ''Log Delay: '', S (Args w ! 2)],
        Println [S ''Log Loss: '', I (lossPercent ?N 0), S ''%''],
        Println [S ''Number of missing log records: '', I ?N]])" if "?N \<noteq> 0"
    unfolding main_startup_passed [OF assms(1-4)] r
    using that by (simp add: get_results_def build_all_false duplicates_def)
  have l: "lossPercent ?N 0 = 100"
    if "?N \<noteq> 0 \<and> - 92233720368547758 \<le> sint ?N \<and> sint ?N \<le> 92233720368547758"
    using that by (intro lossPercent_nothing_found) simp_all
  from r m l show ?thesis by (simp add: build_all_false build_no_flag)
qed

theorem unknown_destination_witness:
  "env_complete (example_world ''kinesis'' ''5'')
    \<and> Args (example_world ''kinesis'' ''5'') = [''validate'', ''5'', ''1s'']
    \<and> Atoi ''5'' = 5
    \<and> main (example_world ''kinesis'' ''5'') =
      (Inr (),
       [Println [S ''Total input record: '', I 5],
        Println [S ''Total record in destination: '', I 0],
        Println [S ''Unique record in destination: '', I 0],
        Println [S ''Duplicate records: '', I 0],
        Println [S ''Log Delay: '', S ''1s''],
        Println [S ''Log Loss: '', I 100, S ''%''],
        Println [S ''Number of missing log records: '', I 5]])
    \<and> exit_status (fst (main (example_world ''kinesis'' ''5''))) = Some 0
    \<and> Atoi ''-5'' = - 5
    \<and> main (example_world ''kinesis'' ''-5'') =
      (Inr (),
       [Println [S ''Total input record: '', I (- 5)],
        Println [S ''Total record in destination: '', I 0],
        Println [S ''Unique record in destination: '', I 0],
        Println [S ''Duplicate records: '', I 0],
        Println [S ''Log Delay: '', S ''1s''],
        Println [S ''Log Loss: '', I 100, S ''%''],
        Println [S ''Number of missing log records: '', I (- 5)]])
    \<and> exit_status (fst (main (example_world ''kinesis'' ''-5''))) = Some 0"
proof -
  have e: "env_complete (example_world ''kinesis'' c)" for c by (simp add: example_env_complete)
  have a: "Args (example_world ''kinesis'' c) = [''validate'', c, ''1s'']" for c
    by (simp add: example_world_def)
  have d: "Getenv (example_world ''kinesis'' c) envDestination = ''kinesis''" for c
    by (simp add: example_world_def env_eval)
  have h: "2 < length (Args (example_world ''kinesis'' c))"
    "Args (example_world ''kinesis'' c) ! 2 \<noteq> []"
    "Getenv (example_world ''kinesis'' c) envDestination \<noteq> ''s3''"
    "Getenv (example_world ''kinesis'' c) envDestination \<noteq> ''cloudwatch''" for c
    by (simp_all add: a d)
  have c5: "Args (example_world ''kinesis'' ''5'') ! 1 \<noteq> []"
    and cm5: "Args (example_world ''kinesis'' ''-5'') ! 1 \<noteq> []"
    by (simp_all add: a)
  have am5: "Atoi ''-5'' = - 5" by (simp add: Atoi_eval)
  have r5: "(5 :: go_int) \<noteq> 0 \<and> - 92233720368547758 \<le> sint (5 :: go_int) \<and> sint (5 :: go_int) \<le> 92233720368547758"
    and rm5: "(- 5 :: go_int) \<noteq> 0 \<and> - 92233720368547758 \<le> sint (- 5 :: go_int) \<and> sint (- 5 :: go_int) \<le> 92233720368547758"
    by simp_all
  note t = unknown_destination [OF e h(1) c5 h(2) h(3) h(4)]
  note u = unknown_destination [OF e h(1) cm5 h(2) h(3) h(4)]
  from t r5 have m: "main (example_world ''kinesis'' ''5'') =
      (Inr (),
       [Println [S ''Total input record: '', I 5],
        Println [S ''Total record in destination: '', I 0],
        Println [S ''Unique record in destination: '', I 0],
        Println [S ''Duplicate records: '', I 0],
        Println [S ''Log Delay: '', S ''1s''],
        Println [S ''Log Loss: '', I 100, S ''%''],
        Println [S ''Number of missing log records: '', I 5]])"
    and x: "exit_status (fst (main (example_world ''kinesis'' ''5''))) = Some 0"
    by (simp_all add: a Atoi_5)
  from u rm5 have m': "main (example_world ''kinesis'' ''-5'') =
      (Inr (),
       [Println [S ''Total input record: '', I (- 5)],
        Println [S ''Total record in destination: '', I 0],
        Println [S ''Unique record in destination: '', I 0],
        Println [S ''Duplicate records: '', I 0],
        Println [S ''Log Delay: '', S ''1s''],
        Println [S ''Log Loss: '', I 100, S ''%''],
        Println [S ''Number of missing log records: '', I (- 5)]])"
    and x': "exit_status (fst (main (example_world ''kinesis'' ''-5''))) = Some 0"
    by (simp_all add: a am5)
  show ?thesis by (intro conjI e a Atoi_5 m x am5 m' x')
qed

text \<open>
  Claim C10 as stated fails on the count: with \<open>0\<close>, or with \<open>abc\<close> which \<open>Atoi\<close>
  reads as 0, the run stops in the division with exit status 2; with the least \<open>int\<close>
  the universe is empty, the product with 100 wraps to 0, and the run exits with status 0
  printing a loss of 0.
\<close>

theorem unknown_destination_counterexample:
  "Atoi ''0'' = 0
    \<and> main (example_world ''kinesis'' ''0'') =
      (Inl (Panic ''integer divide by zero''),
       [Println [S ''Total input record: '', I 0],
        Println [S ''Total record in destination: '', I 0],
        Println [S ''Unique record in destination: '', I 0],
        Println [S ''Duplicate records: '', I 0],
        Println [S ''Log Delay: '', S ''1s'']])
    \<and> exit_status (fst (main (example_world ''kinesis'' ''0''))) = Some 2
    \<and> exit_status (fst (main (example_world ''kinesis'' ''abc''))) = Some 2
    \<and> Atoi ''-9223372036854775808'' = - (2 ^ 63)
    \<and> main (example_world ''kinesis'' ''-9223372036854775808'') =
      (Inr (),
       [Println [S ''Total input record: '', I (- (2 ^ 63))],
        Println [S ''Total record in destination: '', I 0],
        Println [S ''Unique record in destination: '', I 0],
        Println [S ''Duplicate records: '', I 0],
        Println [S ''Log Delay: '', S ''1s''],
        Println [S ''Log Loss: '', I 0, S ''%''],
        Println [S ''Number of missing log records: '', I (- (2 ^ 63))]])"
proof -
  have a: "Atoi ''0'' = 0" "Atoi ''abc'' = 0" "Atoi ''-9223372036854775808'' = - (2 ^ 63)"
    by (simp_all add: Atoi_eval)
  have 1: "main (example_world ''kinesis'' ''0'') =
      (Inl (Panic ''integer divide by zero''),
       [Println [S ''Total input record: '', I 0],
        Println [S ''Total record in destination: '', I 0],
        Println [S ''Unique record in destination: '', I 0],
        Println [S ''Duplicate records: '', I 0],
        Println [S ''Log Delay: '', S ''1s'']])"
    by (simp add: main_def example_world_def read_destination_def env_eval a build_all_false
        get_results_def duplicates_def Let_def)
  have 2: "fst (main (example_world ''kinesis'' ''abc'')) = Inl (Panic ''integer divide by zero'')"
    by (simp add: main_def example_world_def read_destination_def env_eval a build_all_false
        get_results_def duplicates_def Let_def)
  have l: "lossPercent (- (2 ^ 63)) 0 = 0" by (simp add: lossPercent_def go_div_def)
  have 3: "main (example_world ''kinesis'' ''-9223372036854775808'') =
      (Inr (),
       [Println [S ''Total input record: '', I (- (2 ^ 63))],
        Println [S ''Total record in destination: '', I 0],
        Println [S ''Unique record in destination: '', I 0],
        Println [S ''Duplicate records: '', I 0],
        Println [S ''Log Delay: '', S ''1s''],
        Println [S ''Log Loss: '', I 0, S ''%''],
        Println [S ''Number of missing log records: '', I (- (2 ^ 63))]])"
    by (simp add: main_def example_world_def read_destination_def env_eval a build_all_false
        get_results_def duplicates_def lossPercent_def go_div_def Let_def)
  have x: "exit_status (fst (main (example_world ''kinesis'' ''0''))) = Some 2"
    "exit_status (fst (main (example_world ''kinesis'' ''abc''))) = Some 2"
    by (simp_all add: 1 2)
  show ?thesis by (intro conjI a(1) 1 x a(3) 3)
qed

text \<open>
  Claim C3, as amended. Each of the five environment variables that is empty or not set,
  and each of the two arguments that is given as the empty string, ends \<open>main\<close> with its
  own message before any call to a destination; the seven messages differ. The count is
  checked for emptiness before the universe is built, the delay after. A count that is not
  empty is never rejected: \<open>main\<close> goes on with the value that \<open>Atoi\<close> gives for it.
\<close>

theorem startup_checks:
  "(Getenv w envAWSRegion = [] \<longrightarrow>
      main w = (Inl (Fatal ''[TEST FAILURE] AWS Region required. Set the value for environment variable- %s'' [envAWSRegion]), []))
    \<and> (Getenv w envAWSRegion \<noteq> [] \<and> Getenv w envS3Bucket = [] \<longrightarrow>
      main w = (Inl (Fatal ''[TEST FAILURE] Bucket name required. Set the value for environment variable- %s'' [envS3Bucket]), []))
    \<and> (Getenv w envAWSRegion \<noteq> [] \<and> Getenv w envS3Bucket \<noteq> [] \<and> Getenv w envCWLogGroup = [] \<longrightarrow>
      main w = (Inl (Fatal ''[TEST FAILURE] Log group name required. Set the value for environment variable- %s'' [envCWLogGroup]), []))
    \<and> (Getenv w envAWSRegion \<noteq> [] \<and> Getenv w envS3Bucket \<noteq> [] \<and> Getenv w envCWLogGroup \<noteq> []
        \<and> Getenv w envLogPrefix = [] \<longrightarrow>
      main w = (Inl (Fatal ''[TEST FAILURE] Object prefix required. Set the value for environment variable- %s'' [envLogPrefix]), []))
    \<and> (Getenv w envAWSRegion \<noteq> [] \<and> Getenv w envS3Bucket \<noteq> [] \<and> Getenv w envCWLogGroup \<noteq> []
        \<and> Getenv w envLogPrefix \<noteq> [] \<and> Getenv w envDestination = [] \<longrightarrow>
      main w = (Inl (Fatal ''[TEST FAILURE] Log destination for validation required. Set the value for environment variable- %s''
                  [envDestination]), []))
    \<and> (env_complete w \<and> 1 < length (Args w) \<and> Args w ! 1 = [] \<longrightarrow>
      main w = (Inl (Fatal ''[TEST FAILURE] Total input record number required. Set the value as the first argument'' []), []))
    \<and> (env_complete w \<and> 2 < length (Args w) \<and> Args w ! 1 \<noteq> [] \<and> Args w ! 2 = [] \<longrightarrow>
      main w = (Inl (Fatal ''[TEST FAILURE] Log delay required. Set the value as the second argument'' []), []))
    \<and> distinct
         [''[TEST FAILURE] AWS Region required. Set the value for environment variable- %s'',
          ''[TEST FAILURE] Bucket name required. Set the value for environment variable- %s'',
          ''[TEST FAILURE] Log group name required. Set the value for environment variable- %s'',
          ''[TEST FAILURE] Object prefix required. Set the value for environment variable- %s'',
          ''[TEST FAILURE] Log destination for validation required. Set the value for environment variable- %s'',
          ''[TEST FAILURE] Total input record number required. Set the value as the first argument'',
          ''[TEST FAILURE] Log delay required. Set the value as the second argument'']
    \<and> (env_complete w \<and> 2 < length (Args w) \<and> Args w ! 1 \<noteq> [] \<and> Args w ! 2 \<noteq> [] \<longrightarrow>
      main w =
        (case read_destination w (Getenv w envDestination) (Getenv w envAWSRegion) (Getenv w envS3Bucket)
                (Getenv w envCWLogGroup) (Getenv w envLogPrefix) (build (Atoi (Args w ! 1)) idCounterBase) of
           (Inl f, tr) \<Rightarrow> (Inl f, tr)
         | (Inr (totalRecordFound, inputMap'), tr) \<Rightarrow>
             (case get_results (Atoi (Args w ! 1)) totalRecordFound inputMap' (Args w ! 2) of
                (res, tr') \<Rightarrow> (res, tr @ tr'))))"
proof (intro conjI impI)
  show "distinct
         [''[TEST FAILURE] AWS Region required. Set the value for environment variable- %s'',
          ''[TEST FAILURE] Bucket name required. Set the value for environment variable- %s'',
          ''[TEST FAILURE] Log group name required. Set the value for environment variable- %s'',
          ''[TEST FAILURE] Object prefix required. Set the value for environment variable- %s'',
          ''[TEST FAILURE] Log destination for validation required. Set the value for environment variable- %s'',
          ''[TEST FAILURE] Total input record number required. Set the value as the first argument'',
          ''[TEST FAILURE] Log delay required. Set the value as the second argument'']"
    by simp
  show "main w =
        (case read_destination w (Getenv w envDestination) (Getenv w envAWSRegion) (Getenv w envS3Bucket)
                (Getenv w envCWLogGroup) (Getenv w envLogPrefix) (build (Atoi (Args w ! 1)) idCounterBase) of
           (Inl f, tr) \<Rightarrow> (Inl f, tr)
         | (Inr (totalRecordFound, inputMap'), tr) \<Rightarrow>
             (case get_results (Atoi (Args w ! 1)) totalRecordFound inputMap' (Args w ! 2) of
                (res, tr') \<Rightarrow> (res, tr @ tr')))"
    if "env_complete w \<and> 2 < length (Args w) \<and> Args w ! 1 \<noteq> [] \<and> Args w ! 2 \<noteq> []"
    using that by (intro main_startup_passed) simp_all
qed (simp_all add: main_def env_complete_def Let_def del: One_nat_def)

theorem startup_checks_witness:
  "main ((example_world ''s3'' ''5'')\<lparr>Getenv := (\<lambda>name. [])\<rparr>) =
      (Inl (Fatal ''[TEST FAILURE] AWS Region required. Set the value for environment variable- %s'' [''AWS_REGION'']), [])
    \<and> main ((example_world ''s3'' ''5'')\<lparr>Getenv := (\<lambda>name. if name = ''AWS_REGION'' then ''us-west-2'' else [])\<rparr>) =
      (Inl (Fatal ''[TEST FAILURE] Bucket name required. Set the value for environment variable- %s'' [''S3_BUCKET_NAME'']), [])
    \<and> main (example_world [] ''5'') =
      (Inl (Fatal ''[TEST FAILURE] Log destination for validation required. Set the value for environment variable- %s''
              [''DESTINATION'']), [])
    \<and> main (example_world ''s3'' []) =
      (Inl (Fatal ''[TEST FAILURE] Total input record number required. Set the value as the first argument'' []), [])
    \<and> main ((example_world ''s3'' ''5'')\<lparr>Args := [''validate'', ''5'', []]\<rparr>) =
      (Inl (Fatal ''[TEST FAILURE] Log delay required. Set the value as the second argument'' []), [])
    \<and> fst (main (example_world ''s3'' ''5'')) = Inr ()
    \<and> hd (snd (main (example_world ''s3'' ''5''))) = ListObjectsV2 (ListObjectsV2Input ''load-test-bucket'' None ''load-test'')"
proof -
  have 1: "main ((example_world ''s3'' ''5'')\<lparr>Getenv := (\<lambda>name. [])\<rparr>) =
      (Inl (Fatal ''[TEST FAILURE] AWS Region required. Set the value for environment variable- %s'' [''AWS_REGION'']), [])"
    using startup_checks [of "(example_world ''s3'' ''5'')\<lparr>Getenv := (\<lambda>name. [])\<rparr>"]
    by (simp add: env_eval)
  have 2: "main ((example_world ''s3'' ''5'')\<lparr>Getenv := (\<lambda>name. if name = ''AWS_REGION'' then ''us-west-2'' else [])\<rparr>) =
      (Inl (Fatal ''[TEST FAILURE] Bucket name required. Set the value for environment variable- %s'' [''S3_BUCKET_NAME'']), [])"
    using startup_checks [of "(example_world ''s3'' ''5'')\<lparr>Getenv := (\<lambda>name. if name = ''AWS_REGION'' then ''us-west-2'' else [])\<rparr>"]
    by (simp add: env_eval)
  have 3: "main (example_world [] ''5'') =
      (Inl (Fatal ''[TEST FAILURE] Log destination for validation required. Set the value for environment variable- %s''
              [''DESTINATION'']), [])"
    using startup_checks [of "example_world [] ''5''"]
    by (simp add: env_eval example_world_def)
  have 4: "main (example_world ''s3'' []) =
      (Inl (Fatal ''[TEST FAILURE] Total input record number required. Set the value as the first argument'' []), [])"
    using startup_checks [of "example_world ''s3'' []"] example_env_complete [of "''s3''" "[]"]
    by (simp add: example_world_def del: One_nat_def)
  have e5: "env_complete ((example_world ''s3'' ''5'')\<lparr>Args := [''validate'', ''5'', []]\<rparr>)"
    using example_env_complete [of "''s3''" "''5''"] by (simp add: env_complete_def)
  have 5: "main ((example_world ''s3'' ''5'')\<lparr>Args := [''validate'', ''5'', []]\<rparr>) =
      (Inl (Fatal ''[TEST FAILURE] Log delay required. Set the value as the second argument'' []), [])"
    using startup_checks [of "(example_world ''s3'' ''5'')\<lparr>Args := [''validate'', ''5'', []]\<rparr>"] e5
    by (simp del: One_nat_def)
  have 6: "fst (main (example_world ''s3'' ''5'')) = Inr ()"
    "hd (snd (main (example_world ''s3'' ''5''))) = ListObjectsV2 (ListObjectsV2Input ''load-test-bucket'' None ''load-test'')"
    by (simp_all add: example_main_s3)
  show ?thesis by (intro conjI 1 2 3 4 5 6)
qed

text \<open>
  Claim C3 as stated fails on the count: with the argument \<open>-5\<close> the universe is built
  (empty), the log stream is read in three calls and the run ends with status 0; with
  \<open>abc\<close>, which \<open>Atoi\<close> reads as 0, the log stream is read as well before the run
  stops.
\<close>

theorem invalid_count_counterexample:
  "Atoi ''-5'' = - 5
    \<and> build (Atoi ''-5'') idCounterBase = fmempty
    \<and> main (example_world ''cloudwatch'' ''-5'') =
      (Inr (),
       [GetLogEvents (GetLogEventsInput ''load-test-group'' ''load-test'' None True),
        GetLogEvents (GetLogEventsInput ''load-test-group'' ''load-test'' (Some ''f/1'') True),
        GetLogEvents (GetLogEventsInput ''load-test-group'' ''load-test'' (Some ''f/2'') True),
        Println [S ''Total input record: '', I (- 5)],
        Println [S ''Total record in destination: '', I 5],
        Println [S ''Unique record in destination: '', I 0],
        Println [S ''Duplicate records: '', I 5],
        Println [S ''Log Delay: '', S ''1s''],
        Println [S ''Log Loss: '', I 100, S ''%''],
        Println [S ''Number of missing log records: '', I (- 5)]])
    \<and> exit_status (fst (main (example_world ''cloudwatch'' ''-5''))) = Some 0
    \<and> Atoi ''abc'' = 0
    \<and> main (example_world ''cloudwatch'' ''abc'') =
      (Inl (Panic ''integer divide by zero''),
       [GetLogEvents (GetLogEventsInput ''load-test-group'' ''load-test'' None True),
        GetLogEvents (GetLogEventsInput ''load-test-group'' ''load-test'' (Some ''f/1'') True),
        GetLogEvents (GetLogEventsInput ''load-test-group'' ''load-test'' (Some ''f/2'') True),
        Println [S ''Total input record: '', I 0],
        Println [S ''Total record in destination: '', I 5],
        Println [S ''Unique record in destination: '', I 0],
        Println [S ''Duplicate records: '', I 5],
        Println [S ''Log Delay: '', S ''1s'']])"
proof -
  have a: "Atoi ''-5'' = - 5" "Atoi ''abc'' = 0" by (simp_all add: Atoi_eval)
  have b: "build (- 5) idCounterBase = fmempty" "build 0 idCounterBase = fmempty"
    by (simp_all add: build_def build_loop.simps word_sless_alt)
  have r: "validate_cloudwatch example_pages ''load-test-group'' ''load-test'' fmempty =
      (Inr (5, fmempty),
       [GetLogEvents (GetLogEventsInput ''load-test-group'' ''load-test'' None True),
        GetLogEvents (GetLogEventsInput ''load-test-group'' ''load-test'' (Some ''f/1'') True),
        GetLogEvents (GetLogEventsInput ''load-test-group'' ''load-test'' (Some ''f/2'') True)])"
    by (simp add: run_eval)
  have u: "uniqueRecordFound fmempty = 0" by (simp add: universe_eval)
  have m1: "main (example_world ''cloudwatch'' ''-5'') =
      (Inr (),
       [GetLogEvents (GetLogEventsInput ''load-test-group'' ''load-test'' None True),
        GetLogEvents (GetLogEventsInput ''load-test-group'' ''load-test'' (Some ''f/1'') True),
        GetLogEvents (GetLogEventsInput ''load-test-group'' ''load-test'' (Some ''f/2'') True),
        Println [S ''Total input record: '', I (- 5)],
        Println [S ''Total record in destination: '', I 5],
        Println [S ''Unique record in destination: '', I 0],
        Println [S ''Duplicate records: '', I 5],
        Println [S ''Log Delay: '', S ''1s''],
        Println [S ''Log Loss: '', I 100, S ''%''],
        Println [S ''Number of missing log records: '', I (- 5)]])"
    by (simp add: main_def example_world_def read_destination_def getCWClient_def env_eval a b r u
        get_results_def duplicates_def lossPercent_def go_div_def Let_def)
  have m2: "main (example_world ''cloudwatch'' ''abc'') =
      (Inl (Panic ''integer divide by zero''),
       [GetLogEvents (GetLogEventsInput ''load-test-group'' ''load-test'' None True),
        GetLogEvents (GetLogEventsInput ''load-test-group'' ''load-test'' (Some ''f/1'') True),
        GetLogEvents (GetLogEventsInput ''load-test-group'' ''load-test'' (Some ''f/2'') True),
        Println [S ''Total input record: '', I 0],
        Println [S ''Total record in destination: '', I 5],
        Println [S ''Unique record in destination: '', I 0],
        Println [S ''Duplicate records: '', I 5],
        Println [S ''Log Delay: '', S ''1s'']])"
    by (simp add: main_def example_world_def read_destination_def getCWClient_def env_eval a b r u
        get_results_def duplicates_def Let_def)
  have x: "exit_status (fst (main (example_world ''cloudwatch'' ''-5''))) = Some 0"
    by (simp add: m1)
  have b': "build (Atoi ''-5'') idCounterBase = fmempty" by (simp add: a b)
  show ?thesis by (intro conjI a(1) b' m1 x a(2) m2)
qed

end
